theory Spec2Isabelle
  imports Main "HOL-Library.Sublist"
begin

section \<open>Python strings and bytes\<close>

text \<open>
  A Python \<open>str\<close> is a sequence of Unicode code points, so it is modelled as a list of
  natural numbers; \<open>len\<close> is \<open>length\<close> and counts code points.  Literals of the source are
  written through \<open>ustr\<close>, which reads an ASCII literal as its code points; the two
  characters that cannot stand in a literal here, the double quote (34) and the backslash
  (92), are written as numbers.  A \<open>bytes\<close> object is a list of 8-bit characters.
\<close>

type_synonym pystr = "nat list"

type_synonym bytes = "char list"

definition ustr :: "string \<Rightarrow> pystr" where
  "ustr s = map of_char s"

text \<open>
  \<open>str.strip()\<close> removes leading and trailing whitespace, which for \<open>str\<close> is the set of
  code points CPython's \<open>_PyUnicode_IsWhitespace\<close> accepts.
\<close>

definition py_isspace :: "nat \<Rightarrow> bool" where
  "py_isspace c \<longleftrightarrow>
     (9 \<le> c \<and> c \<le> 13) \<or> (28 \<le> c \<and> c \<le> 32) \<or> c = 133 \<or> c = 160 \<or> c = 5760 \<or>
     (8192 \<le> c \<and> c \<le> 8202) \<or> c = 8232 \<or> c = 8233 \<or> c = 8239 \<or> c = 8287 \<or> c = 12288"

definition strip :: "pystr \<Rightarrow> pystr" where
  "strip s = rev (dropWhile py_isspace (rev (dropWhile py_isspace s)))"

text \<open>\<open>userId.replace(" ", "_")\<close>\<close>

definition replace_space :: "pystr \<Rightarrow> pystr" where
  "replace_space s = map (\<lambda>c. if c = 32 then 95 else c) s"

text \<open>\<open>str(x or "")\<close> for a field that is a string or missing.\<close>

definition str_or_empty :: "pystr option \<Rightarrow> pystr" where
  "str_or_empty x = (case x of None \<Rightarrow> [] | Some s \<Rightarrow> s)"

text \<open>Decimal rendering of integers, as \<open>int.__repr__\<close> and an f-string do it.\<close>

fun str_nat :: "nat \<Rightarrow> pystr" where
  "str_nat n = (if n < 10 then [48 + n] else str_nat (n div 10) @ [48 + n mod 10])"

declare str_nat.simps [simp del]

definition str_int :: "int \<Rightarrow> pystr" where
  "str_int i = (if i < 0 then 45 # str_nat (nat (- i)) else str_nat (nat i))"

subsection \<open>UTF-8\<close>

text \<open>
  \<open>str.encode("utf-8")\<close> and \<open>bytes.decode("utf-8")\<close> in their strict mode: surrogates
  cannot be encoded, and overlong forms, surrogates and values beyond U+10FFFF are
  rejected on decoding.  \<open>None\<close> stands for \<open>UnicodeEncodeError\<close> and
  \<open>UnicodeDecodeError\<close>.
\<close>

definition utf8_encode_char :: "nat \<Rightarrow> nat list option" where
  "utf8_encode_char c =
     (if c < 128 then Some [c]
      else if c < 2048 then Some [192 + c div 64, 128 + c mod 64]
      else if c < 65536 then
        (if 55296 \<le> c \<and> c \<le> 57343 then None
         else Some [224 + c div 4096, 128 + c div 64 mod 64, 128 + c mod 64])
      else if c < 1114112 then
        Some [240 + c div 262144, 128 + c div 4096 mod 64, 128 + c div 64 mod 64, 128 + c mod 64]
      else None)"

fun utf8_encode_units :: "pystr \<Rightarrow> nat list option" where
  "utf8_encode_units [] = Some []"
| "utf8_encode_units (c # s) =
     (case utf8_encode_char c of
        None \<Rightarrow> None
      | Some bs \<Rightarrow> (case utf8_encode_units s of None \<Rightarrow> None | Some r \<Rightarrow> Some (bs @ r)))"

definition utf8_encode :: "pystr \<Rightarrow> bytes option" where
  "utf8_encode s = map_option (map char_of) (utf8_encode_units s)"

definition is_cont :: "nat \<Rightarrow> bool" where
  "is_cont b \<longleftrightarrow> 128 \<le> b \<and> b \<le> 191"

fun utf8_decode_units :: "nat list \<Rightarrow> pystr option" where
  "utf8_decode_units [] = Some []"
| "utf8_decode_units (b0 # bs) =
     (if b0 < 128 then map_option (Cons b0) (utf8_decode_units bs)
      else if 194 \<le> b0 \<and> b0 \<le> 223 then
        (case bs of
           b1 # r \<Rightarrow>
             if is_cont b1
             then map_option (Cons ((b0 - 192) * 64 + (b1 - 128))) (utf8_decode_units r)
             else None
         | _ \<Rightarrow> None)
      else if 224 \<le> b0 \<and> b0 \<le> 239 then
        (case bs of
           b1 # b2 # r \<Rightarrow>
             if is_cont b1 \<and> is_cont b2 \<and> (b0 = 224 \<longrightarrow> 160 \<le> b1) \<and> (b0 = 237 \<longrightarrow> b1 \<le> 159)
             then map_option (Cons ((b0 - 224) * 4096 + (b1 - 128) * 64 + (b2 - 128)))
                    (utf8_decode_units r)
             else None
         | _ \<Rightarrow> None)
      else if 240 \<le> b0 \<and> b0 \<le> 244 then
        (case bs of
           b1 # b2 # b3 # r \<Rightarrow>
             if is_cont b1 \<and> is_cont b2 \<and> is_cont b3 \<and>
                (b0 = 240 \<longrightarrow> 144 \<le> b1) \<and> (b0 = 244 \<longrightarrow> b1 \<le> 143)
             then map_option
                    (Cons ((b0 - 240) * 262144 + (b1 - 128) * 4096 + (b2 - 128) * 64 + (b3 - 128)))
                    (utf8_decode_units r)
             else None
         | _ \<Rightarrow> None)
      else None)"

definition utf8_decode :: "bytes \<Rightarrow> pystr option" where
  "utf8_decode bs = utf8_decode_units (map of_char bs)"

section \<open>JSON values\<close>

text \<open>
  The values \<open>json.loads\<close> returns and \<open>json.dumps\<close> accepts.  A \<open>dict\<close> keeps its keys
  in insertion order, so it is an association list; \<open>dict_set\<close> is \<open>d[k] = v\<close>, which
  replaces the value of a key in place and appends a new key at the end.  A float is kept
  as the text it was read from: floating-point arithmetic is not modelled, and the two
  places where Python needs the value of a float (its \<open>repr\<close> and its truth value) are
  parameters, see \<open>pylib\<close>.
\<close>

datatype json =
    JNull
  | JBool bool
  | JInt int
  | JFloat pystr
  | JString pystr
  | JArray "json list"
  | JObject "(pystr \<times> json) list"

fun dict_get :: "(pystr \<times> 'v) list \<Rightarrow> pystr \<Rightarrow> 'v option" where
  "dict_get [] k = None"
| "dict_get ((k', v) # kvs) k = (if k' = k then Some v else dict_get kvs k)"

fun dict_set :: "(pystr \<times> 'v) list \<Rightarrow> pystr \<Rightarrow> 'v \<Rightarrow> (pystr \<times> 'v) list" where
  "dict_set [] k v = [(k, v)]"
| "dict_set ((k', v') # kvs) k v = (if k' = k then (k, v) # kvs else (k', v') # dict_set kvs k v)"

fun dict_del :: "(pystr \<times> 'v) list \<Rightarrow> pystr \<Rightarrow> (pystr \<times> 'v) list" where
  "dict_del [] k = []"
| "dict_del ((k', v) # kvs) k = (if k' = k then kvs else (k', v) # dict_del kvs k)"

definition JStr :: "string \<Rightarrow> json" where
  "JStr s = JString (ustr s)"

subsection \<open>\<open>json.dumps(obj, indent=2)\<close>\<close>

text \<open>
  With \<open>ensure_ascii\<close> at its default, a string is written by
  \<open>encode_basestring_ascii\<close>: the quote, the backslash and the control characters with a
  short escape get that escape, printable ASCII is copied, everything else becomes
  a backslash, \<open>u\<close> and four lower-case hex digits, a code point beyond the BMP as a surrogate pair.
\<close>

definition hexdigit :: "nat \<Rightarrow> nat" where
  "hexdigit d = (if d < 10 then 48 + d else 87 + d)"

definition hex4 :: "nat \<Rightarrow> pystr" where
  "hex4 n = [hexdigit (n div 4096 mod 16), hexdigit (n div 256 mod 16),
             hexdigit (n div 16 mod 16), hexdigit (n mod 16)]"

definition escape_char :: "nat \<Rightarrow> pystr" where
  "escape_char c =
     (if c = 34 then [92, 34]
      else if c = 92 then [92, 92]
      else if c = 10 then 92 # ustr ''n''
      else if c = 13 then 92 # ustr ''r''
      else if c = 9 then 92 # ustr ''t''
      else if c = 8 then 92 # ustr ''b''
      else if c = 12 then 92 # ustr ''f''
      else if 32 \<le> c \<and> c \<le> 126 then [c]
      else if c < 65536 then 92 # ustr ''u'' @ hex4 c
      else 92 # ustr ''u'' @ hex4 (55296 + (c - 65536) div 1024 mod 1024) @
           92 # ustr ''u'' @ hex4 (56320 + (c - 65536) mod 1024))"

definition encode_basestring_ascii :: "pystr \<Rightarrow> pystr" where
  "encode_basestring_ascii s = [34] @ concat (map escape_char s) @ [34]"

text \<open>
  The encoder with \<open>indent=2\<close>: an empty container is \<open>[]\<close> or \<open>{}\<close>; otherwise every
  item starts on a line of its own, indented by two spaces per level, items are separated
  by a comma and a key from its value by a colon and a space.  The first argument is the
  \<open>repr\<close> of floats.
\<close>

definition newline_indent :: "nat \<Rightarrow> pystr" where
  "newline_indent level = 10 # replicate (2 * level) 32"

fun iterencode :: "(pystr \<Rightarrow> pystr) \<Rightarrow> nat \<Rightarrow> json \<Rightarrow> pystr"
  and iterencode_list :: "(pystr \<Rightarrow> pystr) \<Rightarrow> nat \<Rightarrow> json list \<Rightarrow> pystr"
  and iterencode_dict :: "(pystr \<Rightarrow> pystr) \<Rightarrow> nat \<Rightarrow> (pystr \<times> json) list \<Rightarrow> pystr"
where
  "iterencode fr level JNull = ustr ''null''"
| "iterencode fr level (JBool b) = (if b then ustr ''true'' else ustr ''false'')"
| "iterencode fr level (JInt i) = str_int i"
| "iterencode fr level (JFloat x) = fr x"
| "iterencode fr level (JString s) = encode_basestring_ascii s"
| "iterencode fr level (JArray xs) =
     (if xs = [] then ustr ''[]''
      else ustr ''['' @ newline_indent (Suc level) @ iterencode_list fr (Suc level) xs @
           newline_indent level @ ustr '']'')"
| "iterencode fr level (JObject kvs) =
     (if kvs = [] then ustr ''{}''
      else ustr ''{'' @ newline_indent (Suc level) @ iterencode_dict fr (Suc level) kvs @
           newline_indent level @ ustr ''}'')"
| "iterencode_list fr level [] = []"
| "iterencode_list fr level (x # xs) =
     iterencode fr level x @
     (if xs = [] then [] else ustr '','' @ newline_indent level @ iterencode_list fr level xs)"
| "iterencode_dict fr level [] = []"
| "iterencode_dict fr level (kv # kvs) =
     encode_basestring_ascii (fst kv) @ ustr '': '' @ iterencode fr level (snd kv) @
     (if kvs = [] then [] else ustr '','' @ newline_indent level @ iterencode_dict fr level kvs)"

definition json_dumps :: "(pystr \<Rightarrow> pystr) \<Rightarrow> json \<Rightarrow> pystr" where
  "json_dumps fr obj = iterencode fr 0 obj"

subsection \<open>\<open>json.loads\<close>\<close>

text \<open>
  The decoder follows CPython's scanner (\<open>Modules/_json.c\<close>): whitespace is space, tab,
  line feed and carriage return; a string ends at the first unescaped quote, may not
  contain a raw control character, and knows the eight short escapes and the four-digit
  hex escape; a high surrogate escape directly followed by a low surrogate escape is one
  code point.  \<open>None\<close> stands for the exception the decoder raises.
\<close>

definition is_whitespace :: "nat \<Rightarrow> bool" where
  "is_whitespace c \<longleftrightarrow> c = 32 \<or> c = 9 \<or> c = 10 \<or> c = 13"

definition skip_ws :: "pystr \<Rightarrow> pystr" where
  "skip_ws s = dropWhile is_whitespace s"

definition hexval :: "nat \<Rightarrow> nat option" where
  "hexval c =
     (if 48 \<le> c \<and> c \<le> 57 then Some (c - 48)
      else if 97 \<le> c \<and> c \<le> 102 then Some (c - 87)
      else if 65 \<le> c \<and> c \<le> 70 then Some (c - 55)
      else None)"

fun decode_uXXXX :: "pystr \<Rightarrow> nat option" where
  "decode_uXXXX (a # b # c # d # r) =
     (case (hexval a, hexval b, hexval c, hexval d) of
        (Some x3, Some x2, Some x1, Some x0) \<Rightarrow> Some (x3 * 4096 + x2 * 256 + x1 * 16 + x0)
      | _ \<Rightarrow> None)"
| "decode_uXXXX _ = None"

definition backslash :: "nat \<Rightarrow> nat option" where
  "backslash e =
     (if e = 34 then Some 34
      else if e = 92 then Some 92
      else if e = 47 then Some 47
      else if e = 98 then Some 8
      else if e = 102 then Some 12
      else if e = 110 then Some 10
      else if e = 114 then Some 13
      else if e = 116 then Some 9
      else None)"

definition is_high_surrogate :: "nat \<Rightarrow> bool" where
  "is_high_surrogate c \<longleftrightarrow> 55296 \<le> c \<and> c \<le> 56319"

definition is_low_surrogate :: "nat \<Rightarrow> bool" where
  "is_low_surrogate c \<longleftrightarrow> 56320 \<le> c \<and> c \<le> 57343"

definition join_surrogates :: "nat \<Rightarrow> nat \<Rightarrow> nat" where
  "join_surrogates hi lo = 65536 + ((hi - 55296) * 1024 + (lo - 56320))"

definition cons_result :: "nat \<Rightarrow> (pystr \<times> pystr) option \<Rightarrow> (pystr \<times> pystr) option" where
  "cons_result c res = map_option (\<lambda>(cs, r). (c # cs, r)) res"

text \<open>
  \<open>scanstring\<close> reads a string whose opening quote has been consumed and returns it with
  the rest of the input.
\<close>

function scanstring :: "pystr \<Rightarrow> (pystr \<times> pystr) option" where
  "scanstring [] = None"
| "scanstring (c # s) =
     (if c = 34 then Some ([], s)
      else if c = 92 then
        (case s of
           [] \<Rightarrow> None
         | e # s1 \<Rightarrow>
             if e = 117 then
               (case decode_uXXXX s1 of
                  None \<Rightarrow> None
                | Some uni \<Rightarrow>
                    if is_high_surrogate uni \<and> take 2 (drop 4 s1) = [92, 117] then
                      (case decode_uXXXX (drop 6 s1) of
                         None \<Rightarrow> None
                       | Some uni2 \<Rightarrow>
                           if is_low_surrogate uni2
                           then cons_result (join_surrogates uni uni2) (scanstring (drop 10 s1))
                           else cons_result uni (scanstring (drop 4 s1)))
                    else cons_result uni (scanstring (drop 4 s1)))
             else
               (case backslash e of
                  None \<Rightarrow> None
                | Some ch \<Rightarrow> cons_result ch (scanstring s1)))
      else if c < 32 then None
      else cons_result c (scanstring s))"
  by pat_completeness auto

termination
  by (relation "measure length") auto

text \<open>
  Numbers: an optional minus sign, then \<open>0\<close> or a digit sequence without leading zero,
  then an optional fraction and an optional exponent.  Without fraction and exponent the
  number is an \<open>int\<close>, otherwise a float.
\<close>

definition is_digit :: "nat \<Rightarrow> bool" where
  "is_digit c \<longleftrightarrow> 48 \<le> c \<and> c \<le> 57"

definition digits_value :: "pystr \<Rightarrow> nat" where
  "digits_value ds = foldl (\<lambda>a d. 10 * a + (d - 48)) 0 ds"

definition match_integer :: "pystr \<Rightarrow> (pystr \<times> pystr) option" where
  "match_integer s =
     (let (sign, s1) = (case s of c # r \<Rightarrow> if c = 45 then ([45], r) else ([], s) | [] \<Rightarrow> ([], s))
      in case s1 of
           [] \<Rightarrow> None
         | d # r \<Rightarrow>
             if d = 48 then Some (sign @ [48], r)
             else if 49 \<le> d \<and> d \<le> 57
             then Some (sign @ d # takeWhile is_digit r, dropWhile is_digit r)
             else None)"

definition match_frac :: "pystr \<Rightarrow> pystr \<times> pystr" where
  "match_frac s =
     (case s of
        c # d # r \<Rightarrow>
          if c = 46 \<and> is_digit d then (c # d # takeWhile is_digit r, dropWhile is_digit r)
          else ([], s)
      | _ \<Rightarrow> ([], s))"

definition match_exp :: "pystr \<Rightarrow> pystr \<times> pystr" where
  "match_exp s =
     (case s of
        e # r \<Rightarrow>
          if e = 101 \<or> e = 69 then
            (let (sign, r1) =
               (case r of c # r' \<Rightarrow> if c = 45 \<or> c = 43 then ([c], r') else ([], r) | [] \<Rightarrow> ([], r))
             in if r1 \<noteq> [] \<and> is_digit (hd r1)
                then (e # sign @ takeWhile is_digit r1, dropWhile is_digit r1)
                else ([], s))
          else ([], s)
      | [] \<Rightarrow> ([], s))"

definition int_of_lexeme :: "pystr \<Rightarrow> int" where
  "int_of_lexeme l =
     (case l of
        c # ds \<Rightarrow> if c = 45 then - int (digits_value ds) else int (digits_value l)
      | [] \<Rightarrow> 0)"

definition match_number :: "pystr \<Rightarrow> (json \<times> pystr) option" where
  "match_number s =
     (case match_integer s of
        None \<Rightarrow> None
      | Some (integer, r) \<Rightarrow>
          (let (frac, r1) = match_frac r; (ex, r2) = match_exp r1
           in if frac \<noteq> [] \<or> ex \<noteq> []
              then Some (JFloat (integer @ frac @ ex), r2)
              else Some (JInt (int_of_lexeme integer), r2)))"

definition match_literal :: "pystr \<Rightarrow> pystr \<Rightarrow> bool" where
  "match_literal lit s \<longleftrightarrow> take (length lit) s = lit"

text \<open>
  \<open>scan_once\<close> reads one JSON value; \<open>parse_array\<close> and \<open>parse_object\<close> are the loops over
  the items of a non-empty array and object, entered at the first item, with the items
  read so far as accumulator.  An object is built with \<open>dict_set\<close>, so of two equal keys
  the later value wins.  The first argument bounds the number of nested calls: every call
  consumes input, so \<open>json_loads\<close> passes a bound the input cannot exhaust (CPython has
  the interpreter's recursion limit in its place).
\<close>

fun scan_once :: "nat \<Rightarrow> pystr \<Rightarrow> (json \<times> pystr) option"
  and parse_array :: "nat \<Rightarrow> json list \<Rightarrow> pystr \<Rightarrow> (json list \<times> pystr) option"
  and parse_object ::
    "nat \<Rightarrow> (pystr \<times> json) list \<Rightarrow> pystr \<Rightarrow> ((pystr \<times> json) list \<times> pystr) option"
where
  "scan_once 0 s = None"
| "scan_once (Suc n) s =
     (case s of
        [] \<Rightarrow> None
      | c # r \<Rightarrow>
          if c = 34 then map_option (\<lambda>(str, r'). (JString str, r')) (scanstring r)
          else if c = 123 then
            (case skip_ws r of
               [] \<Rightarrow> None
             | c1 # r1 \<Rightarrow>
                 if c1 = 125 then Some (JObject [], r1)
                 else map_option (\<lambda>(kvs, r'). (JObject kvs, r')) (parse_object n [] (c1 # r1)))
          else if c = 91 then
            (case skip_ws r of
               [] \<Rightarrow> None
             | c1 # r1 \<Rightarrow>
                 if c1 = 93 then Some (JArray [], r1)
                 else map_option (\<lambda>(xs, r'). (JArray xs, r')) (parse_array n [] (c1 # r1)))
          else if c = 110 \<and> match_literal (ustr ''null'') s then Some (JNull, drop 4 s)
          else if c = 116 \<and> match_literal (ustr ''true'') s then Some (JBool True, drop 4 s)
          else if c = 102 \<and> match_literal (ustr ''false'') s then Some (JBool False, drop 5 s)
          else if c = 78 \<and> match_literal (ustr ''NaN'') s then Some (JFloat (ustr ''NaN''), drop 3 s)
          else if c = 73 \<and> match_literal (ustr ''Infinity'') s
            then Some (JFloat (ustr ''Infinity''), drop 8 s)
          else if c = 45 \<and> match_literal (ustr ''-Infinity'') s
            then Some (JFloat (ustr ''-Infinity''), drop 9 s)
          else match_number s)"
| "parse_array 0 acc s = None"
| "parse_array (Suc n) acc s =
     (case scan_once n s of
        None \<Rightarrow> None
      | Some (val, r) \<Rightarrow>
          (case skip_ws r of
             [] \<Rightarrow> None
           | c # r1 \<Rightarrow>
               if c = 93 then Some (acc @ [val], r1)
               else if c = 44 then parse_array n (acc @ [val]) (skip_ws r1)
               else None))"
| "parse_object 0 acc s = None"
| "parse_object (Suc n) acc s =
     (case s of
        [] \<Rightarrow> None
      | q # r \<Rightarrow>
          if q \<noteq> 34 then None
          else
            (case scanstring r of
               None \<Rightarrow> None
             | Some (key, r1) \<Rightarrow>
                 (case skip_ws r1 of
                    [] \<Rightarrow> None
                  | c # r2 \<Rightarrow>
                      if c \<noteq> 58 then None
                      else
                        (case scan_once n (skip_ws r2) of
                           None \<Rightarrow> None
                         | Some (val, r3) \<Rightarrow>
                             (case skip_ws r3 of
                                [] \<Rightarrow> None
                              | c' # r4 \<Rightarrow>
                                  if c' = 125 then Some (dict_set acc key val, r4)
                                  else if c' = 44
                                  then parse_object n (dict_set acc key val) (skip_ws r4)
                                  else None)))))"

text \<open>
  \<open>json.loads(s)\<close> for a \<open>str\<close>: a leading byte order mark is refused, whitespace around
  the value is skipped, and anything after it is an error.
\<close>

definition json_loads :: "pystr \<Rightarrow> json option" where
  "json_loads s =
     (if take 1 s = [65279] then None
      else
        (case scan_once (Suc (length s)) (skip_ws s) of
           None \<Rightarrow> None
         | Some (obj, r) \<Rightarrow> if skip_ws r = [] then Some obj else None))"

section \<open>Python values at run time\<close>

text \<open>
  What the Unicode database and floating-point arithmetic decide is not in the
  repository and is taken as a parameter: \<open>str.isalnum\<close>, the \<open>repr\<close> of a float read
  from a JSON text, and whether such a float is non-zero.
\<close>

record pylib =
  isalnum :: "nat \<Rightarrow> bool"
  float_repr :: "pystr \<Rightarrow> pystr"
  float_truthy :: "pystr \<Rightarrow> bool"

text \<open>
  Exceptions.  \<open>GitHubError method status text\<close> is the
  \<open>Exception(f"GitHub GET error {r.status_code}: {r.text}")\<close> the helpers raise;
  \<open>JSONDecodeError\<close> is what \<open>r.json()\<close> raises on a body that is not JSON, with the
  message of the decoder.  \<open>exn_str\<close> is \<open>str(e)\<close>; for the interpreter's own exceptions
  the message text is not modelled and the name of the class stands for it.
\<close>

datatype pyexn =
    GitHubError pystr nat pystr
  | JSONDecodeError pystr
  | UnicodeDecodeError
  | UnicodeEncodeError
  | TypeError
  | AttributeError
  | KeyError

definition exn_str :: "pyexn \<Rightarrow> pystr" where
  "exn_str e =
     (case e of
        GitHubError method st txt \<Rightarrow>
          ustr ''GitHub '' @ method @ ustr '' error '' @ str_nat st @ ustr '': '' @ txt
      | JSONDecodeError msg \<Rightarrow> msg
      | UnicodeDecodeError \<Rightarrow> ustr ''UnicodeDecodeError''
      | UnicodeEncodeError \<Rightarrow> ustr ''UnicodeEncodeError''
      | TypeError \<Rightarrow> ustr ''TypeError''
      | AttributeError \<Rightarrow> ustr ''AttributeError''
      | KeyError \<Rightarrow> ustr ''KeyError'')"

text \<open>
  The registry is whatever \<open>json.loads\<close> returned, so the operations the handlers apply
  to it are modelled on every JSON value: truth value, \<open>userId in data\<close> (key of a dict,
  element of a list, substring of a string, \<open>TypeError\<close> otherwise), \<open>data.get(key)\<close>
  (\<open>AttributeError\<close> on anything but a dict) and iteration.
\<close>

fun truthy :: "pylib \<Rightarrow> json \<Rightarrow> bool" where
  "truthy lib JNull = False"
| "truthy lib (JBool b) = b"
| "truthy lib (JInt i) = (i \<noteq> 0)"
| "truthy lib (JFloat x) = float_truthy lib x"
| "truthy lib (JString s) = (s \<noteq> [])"
| "truthy lib (JArray xs) = (xs \<noteq> [])"
| "truthy lib (JObject kvs) = (kvs \<noteq> [])"

fun py_contains :: "pystr \<Rightarrow> json \<Rightarrow> pyexn + bool" where
  "py_contains u (JObject kvs) = Inr (dict_get kvs u \<noteq> None)"
| "py_contains u (JArray xs) = Inr (JString u \<in> set xs)"
| "py_contains u (JString s) = Inr (sublist u s)"
| "py_contains u _ = Inl TypeError"

fun py_get :: "json \<Rightarrow> pystr \<Rightarrow> pyexn + json option" where
  "py_get (JObject kvs) k = Inr (dict_get kvs k)"
| "py_get _ k = Inl AttributeError"

fun py_iter :: "json \<Rightarrow> pyexn + json list" where
  "py_iter (JArray xs) = Inr xs"
| "py_iter (JObject kvs) = Inr (map (\<lambda>kv. JString (fst kv)) kvs)"
| "py_iter (JString s) = Inr (map (\<lambda>c. JString [c]) s)"
| "py_iter _ = Inl TypeError"

definition get_or_none :: "(pystr \<times> json) list \<Rightarrow> pystr \<Rightarrow> json" where
  "get_or_none kvs k = (case dict_get kvs k of None \<Rightarrow> JNull | Some v \<Rightarrow> v)"

section \<open>Configuration and the backing store\<close>

text \<open>
  The module-level configuration is read from the environment once.  \<open>GITHUB_TOKEN\<close> only
  enters the request headers, which are not modelled.
\<close>

record config =
  GITHUB_OWNER :: pystr
  GITHUB_REPO :: pystr
  BRANCH :: pystr
  USERS_FILE_PATH :: pystr
  NOTES_FOLDER :: pystr
  MAX_FILE_SIZE :: int

definition default_config :: config where
  "default_config =
     \<lparr>GITHUB_OWNER = ustr ''akmaurya321'', GITHUB_REPO = ustr ''NotesViewer'',
      BRANCH = ustr ''main'', USERS_FILE_PATH = ustr ''users.json'',
      NOTES_FOLDER = ustr ''notes'', MAX_FILE_SIZE = 90 * 1024 * 1024\<rparr>"

definition GITHUB_API :: pystr where
  "GITHUB_API = ustr ''https://api.github.com''"

text \<open>
  The backing store is the GitHub contents API, reached through \<open>requests\<close>.  A request is
  its method with what the source puts into it: \<open>GET url ref\<close>,
  \<open>PUT url message content branch sha\<close> and \<open>DELETE url message sha branch\<close>; the base64
  transport encoding of file contents is left out on both sides.  Of a response the source
  reads \<open>status_code\<close>, \<open>text\<close> and \<open>json()\<close>; the latter is not JSON at all, the JSON
  object of a file (its \<open>sha\<close> and its content), or any other JSON value, such as
  the array of a directory listing.

  The service itself is a parameter of every function that calls it: a function from its
  state and a request to a response and its next state.  A \<open>world\<close> is the state of the
  service with the requests sent so far.
\<close>

datatype gh_request =
    GET pystr pystr
  | PUT pystr pystr bytes pystr "pystr option"
  | DELETE pystr pystr pystr pystr

datatype gh_json =
    NotJson pystr
  | FileObject pystr bytes
  | JsonValue json

record gh_response =
  status_code :: nat
  r_text :: pystr
  json_body :: gh_json

type_synonym 's github = "'s \<Rightarrow> gh_request \<Rightarrow> gh_response \<times> 's"

record 's world =
  remote :: 's
  log :: "gh_request list"

definition requests_send :: "'s github \<Rightarrow> gh_request \<Rightarrow> 's world \<Rightarrow> gh_response \<times> 's world" where
  "requests_send api req w =
     (let (r, s') = api (remote w) req in (r, \<lparr>remote = s', log = log w @ [req]\<rparr>))"

definition response_json :: "gh_response \<Rightarrow> pyexn + gh_json" where
  "response_json r = (case json_body r of NotJson msg \<Rightarrow> Inl (JSONDecodeError msg) | j \<Rightarrow> Inr j)"

definition is_put :: "gh_request \<Rightarrow> bool" where
  "is_put req = (case req of PUT url message content branch sha \<Rightarrow> True | _ \<Rightarrow> False)"

definition is_delete :: "gh_request \<Rightarrow> bool" where
  "is_delete req = (case req of DELETE url message sha branch \<Rightarrow> True | _ \<Rightarrow> False)"

section \<open>GitHub helpers\<close>

definition contents_url :: "config \<Rightarrow> pystr \<Rightarrow> pystr" where
  "contents_url cfg path =
     GITHUB_API @ ustr ''/repos/'' @ GITHUB_OWNER cfg @ ustr ''/'' @ GITHUB_REPO cfg @
     ustr ''/contents/'' @ path"

text \<open>
  \<open>get_repo_file\<close> returns the \<open>sha\<close> and the decoded content, \<open>None\<close> on status 404, and
  raises on any other status, on a body that is not the JSON object of a file, and on
  content that is not UTF-8.
\<close>

definition get_repo_file ::
  "'s github \<Rightarrow> config \<Rightarrow> pystr \<Rightarrow> 's world \<Rightarrow> (pyexn + (pystr \<times> pystr) option) \<times> 's world" where
  "get_repo_file api cfg path w =
     (let (r, w') = requests_send api (GET (contents_url cfg path) (BRANCH cfg)) w
      in if status_code r = 200 then
           (case json_body r of
              NotJson msg \<Rightarrow> (Inl (JSONDecodeError msg), w')
            | FileObject sha raw \<Rightarrow>
                (case utf8_decode raw of
                   None \<Rightarrow> (Inl UnicodeDecodeError, w')
                 | Some content \<Rightarrow> (Inr (Some (sha, content)), w'))
            | JsonValue v \<Rightarrow> (case v of JObject kvs \<Rightarrow> (Inl KeyError, w') | _ \<Rightarrow> (Inl TypeError, w')))
         else if status_code r = 404 then (Inr None, w')
         else (Inl (GitHubError (ustr ''GET'') (status_code r) (r_text r)), w'))"

definition put_repo_file ::
  "'s github \<Rightarrow> config \<Rightarrow> pystr \<Rightarrow> bytes \<Rightarrow> pystr \<Rightarrow> pystr option \<Rightarrow> 's world
     \<Rightarrow> (pyexn + gh_json) \<times> 's world" where
  "put_repo_file api cfg path content_bytes message sha w =
     (let payload_sha = (case sha of None \<Rightarrow> None | Some h \<Rightarrow> if h \<noteq> [] then Some h else None);
          (r, w') = requests_send api
                      (PUT (contents_url cfg path) message content_bytes (BRANCH cfg) payload_sha) w
      in if status_code r = 200 \<or> status_code r = 201 then (response_json r, w')
         else (Inl (GitHubError (ustr ''PUT'') (status_code r) (r_text r)), w'))"

definition delete_repo_file ::
  "'s github \<Rightarrow> config \<Rightarrow> pystr \<Rightarrow> pystr \<Rightarrow> 's world \<Rightarrow> (pyexn + gh_json) \<times> 's world" where
  "delete_repo_file api cfg path sha w =
     (let (r, w') = requests_send api
                      (DELETE (contents_url cfg path) (ustr ''delete '' @ path) sha (BRANCH cfg)) w
      in if status_code r = 200 \<or> status_code r = 204 then (response_json r, w')
         else (Inl (GitHubError (ustr ''DELETE'') (status_code r) (r_text r)), w'))"

section \<open>Users registry\<close>

text \<open>
  \<^verbatim>\<open>
  def load_users_registry():
      rec = get_repo_file(USERS_FILE_PATH)
      if not rec:
          return {"sha": None, "data": {}}
      try:
          data = json.loads(rec["content"])
          return {"sha": rec["sha"], "data": data}
      except Exception:
          return {"sha": rec["sha"], "data": {}}
  \<close>
\<close>

definition load_users_registry ::
  "'s github \<Rightarrow> config \<Rightarrow> 's world \<Rightarrow> (pyexn + (pystr option \<times> json)) \<times> 's world" where
  "load_users_registry api cfg w =
     (case get_repo_file api cfg (USERS_FILE_PATH cfg) w of
        (Inl e, w') \<Rightarrow> (Inl e, w')
      | (Inr None, w') \<Rightarrow> (Inr (None, JObject []), w')
      | (Inr (Some (sha, content)), w') \<Rightarrow>
          (case json_loads content of
             Some data \<Rightarrow> (Inr (Some sha, data), w')
           | None \<Rightarrow> (Inr (Some sha, JObject []), w')))"

definition save_users_registry ::
  "pylib \<Rightarrow> 's github \<Rightarrow> config \<Rightarrow> json \<Rightarrow> pystr option \<Rightarrow> 's world
     \<Rightarrow> (pyexn + gh_json) \<times> 's world" where
  "save_users_registry lib api cfg users_dict sha w =
     (case utf8_encode (json_dumps (float_repr lib) users_dict) of
        None \<Rightarrow> (Inl UnicodeEncodeError, w)
      | Some payload \<Rightarrow>
          put_repo_file api cfg (USERS_FILE_PATH cfg) payload
            (ustr ''update '' @ USERS_FILE_PATH cfg) sha w)"

section \<open>File names\<close>

text \<open>
  \<^verbatim>\<open>
  def safe_filename(name):
      return "".join(c if c.isalnum() or c in "._-" else "_" for c in name)
  \<close>
\<close>

definition safe_filename :: "(nat \<Rightarrow> bool) \<Rightarrow> pystr \<Rightarrow> pystr" where
  "safe_filename alnum name =
     concat (map (\<lambda>c. if alnum c \<or> c \<in> set (ustr ''._-'') then [c] else ustr ''_'') name)"

section \<open>Endpoints\<close>

text \<open>
  A handler takes the request and the world and returns the world it leaves together
  with either the response it builds (\<open>jsonify\<close> of a dict, and the status code) or the
  exception that escapes it, to which Flask answers with status 500.  A request body is a
  JSON object whose fields, where present, are strings.  The random token of
  \<open>uuid.uuid4().hex\<close> and the clock reading \<open>int(time.time() * 1000)\<close> are arguments.
\<close>

record response =
  status :: nat
  body :: json

definition jsonify :: "(string \<times> json) list \<Rightarrow> nat \<Rightarrow> response" where
  "jsonify kvs code = \<lparr>status = code, body = JObject (map (\<lambda>(k, v). (ustr k, v)) kvs)\<rparr>"

definition check_user ::
  "'s github \<Rightarrow> config \<Rightarrow> pystr \<Rightarrow> 's world \<Rightarrow> (pyexn + response) \<times> 's world" where
  "check_user api cfg userId0 w =
     (let userId = strip userId0
      in case load_users_registry api cfg w of
           (Inl e, w1) \<Rightarrow> (Inl e, w1)
         | (Inr (sha, data), w1) \<Rightarrow>
             (case py_contains userId data of
                Inl e \<Rightarrow> (Inl e, w1)
              | Inr exists \<Rightarrow> (Inr (jsonify [(''available'', JBool (\<not> exists))] 200), w1)))"

record register_request =
  body_userId :: "pystr option"
  body_displayName :: "pystr option"

text \<open>The record \<open>register\<close> stores for a new user.\<close>

definition user_entry :: "pystr \<Rightarrow> pystr \<Rightarrow> int \<Rightarrow> json" where
  "user_entry token display createdAt =
     JObject [(ustr ''token'', JString token),
              (ustr ''display'', JString display),
              (ustr ''createdAt'', JInt createdAt)]"

text \<open>A registry of users, each given by userId, token, display name and creation time.\<close>

definition registry_of :: "(pystr \<times> pystr \<times> pystr \<times> int) list \<Rightarrow> json" where
  "registry_of users =
     JObject (map (\<lambda>(userId, token, display, createdAt).
                     (userId, user_entry token display createdAt)) users)"

definition register ::
  "pylib \<Rightarrow> 's github \<Rightarrow> config \<Rightarrow> pystr \<Rightarrow> int \<Rightarrow> register_request \<Rightarrow> 's world
     \<Rightarrow> (pyexn + response) \<times> 's world" where
  "register lib api cfg uuid_hex now_ms req w =
     (let userId = strip (str_or_empty (body_userId req));
          display = strip (str_or_empty (body_displayName req))
      in if userId = [] then (Inr (jsonify [(''error'', JStr ''userId required'')] 400), w)
         else
           (let userId = replace_space userId
            in if length userId > 64
               then (Inr (jsonify [(''error'', JStr ''userId too long'')] 400), w)
               else
                 (case load_users_registry api cfg w of
                    (Inl e, w1) \<Rightarrow> (Inl e, w1)
                  | (Inr (sha, users), w1) \<Rightarrow>
                      (case py_contains userId users of
                         Inl e \<Rightarrow> (Inl e, w1)
                       | Inr True \<Rightarrow>
                           (Inr (jsonify [(''error'', JStr ''userId already taken'')] 409), w1)
                       | Inr False \<Rightarrow>
                           (let token = uuid_hex
                            in case users of
                                 JObject kvs \<Rightarrow>
                                   (let users' = JObject (dict_set kvs userId
                                                   (user_entry token display now_ms))
                                    in case save_users_registry lib api cfg users' sha w1 of
                                         (Inl e, w2) \<Rightarrow>
                                           (Inr (jsonify [(''error'', JStr ''Failed to write registry''),
                                                          (''detail'', JString (exn_str e))] 500), w2)
                                       | (Inr res, w2) \<Rightarrow>
                                           (Inr (jsonify [(''success'', JBool True),
                                                          (''userId'', JString userId),
                                                          (''token'', JString token)] 200), w2))
                               | _ \<Rightarrow> (Inl TypeError, w1))))))"

text \<open>
  The test \<open>not entry or entry.get("token") != token\<close> of \<open>upload\<close> and \<open>delete_file\<close>, on
  the result of \<open>users.get(userId)\<close>.
\<close>

definition credentials_rejected :: "pylib \<Rightarrow> json option \<Rightarrow> pystr \<Rightarrow> pyexn + bool" where
  "credentials_rejected lib entry token =
     (case entry of
        None \<Rightarrow> Inr True
      | Some e \<Rightarrow>
          if \<not> truthy lib e then Inr True
          else (case py_get e (ustr ''token'') of
                  Inl ex \<Rightarrow> Inl ex
                | Inr t \<Rightarrow> Inr (t \<noteq> Some (JString token))))"

record file_storage =
  filename :: "pystr option"
  stream :: bytes

record upload_request =
  files_file :: "file_storage option"
  form_userId :: "pystr option"
  form_token :: "pystr option"

definition upload ::
  "pylib \<Rightarrow> 's github \<Rightarrow> config \<Rightarrow> int \<Rightarrow> upload_request \<Rightarrow> 's world
     \<Rightarrow> (pyexn + response) \<times> 's world" where
  "upload lib api cfg now_ms req w =
     (case files_file req of
        None \<Rightarrow> (Inr (jsonify [(''error'', JStr ''No file uploaded'')] 400), w)
      | Some f \<Rightarrow>
          (let userId = strip (str_or_empty (form_userId req));
               token = strip (str_or_empty (form_token req))
           in if userId = [] \<or> token = []
              then (Inr (jsonify [(''error'', JStr ''userId and token required'')] 400), w)
              else
                (case load_users_registry api cfg w of
                   (Inl e, w1) \<Rightarrow> (Inl e, w1)
                 | (Inr (sha, users), w1) \<Rightarrow>
                     (case py_get users userId of
                        Inl e \<Rightarrow> (Inl e, w1)
                      | Inr entry \<Rightarrow>
                          (case credentials_rejected lib entry token of
                             Inl e \<Rightarrow> (Inl e, w1)
                           | Inr True \<Rightarrow>
                               (Inr (jsonify [(''error'', JStr ''Invalid userId or token'')] 403), w1)
                           | Inr False \<Rightarrow>
                               (let fname = (case filename f of
                                               None \<Rightarrow> ustr ''file''
                                             | Some n \<Rightarrow> if n = [] then ustr ''file'' else n);
                                    filename' = safe_filename (isalnum lib) fname;
                                    timestamp = now_ms;
                                    safe_name = str_int timestamp @ ustr ''_'' @ filename';
                                    repo_path = NOTES_FOLDER cfg @ ustr ''/'' @ userId @ ustr ''/'' @ safe_name;
                                    file_bytes = stream f;
                                    size = int (length file_bytes)
                                in if size > MAX_FILE_SIZE cfg
                                   then (Inr (jsonify
                                           [(''error'', JString (ustr ''File too large. Max allowed is '' @
                                               str_int (MAX_FILE_SIZE cfg) @ ustr '' bytes''))] 413), w1)
                                   else
                                     (case put_repo_file api cfg repo_path file_bytes
                                             (ustr ''upload '' @ safe_name) None w1 of
                                        (Inl e, w2) \<Rightarrow>
                                          (Inr (jsonify [(''error'', JStr ''GitHub upload failed''),
                                                         (''detail'', JString (exn_str e))] 500), w2)
                                      | (Inr res, w2) \<Rightarrow>
                                          (let public_url = ustr ''https://'' @ GITHUB_OWNER cfg @
                                                 ustr ''.github.io/'' @ GITHUB_REPO cfg @ ustr ''/'' @ repo_path
                                           in (Inr (jsonify [(''success'', JBool True),
                                                             (''url'', JString public_url),
                                                             (''path'', JString repo_path)] 200), w2)))))))))"

text \<open>
  The loop of \<open>list_user\<close> over the items of the listing: \<open>it.get\<close> raises on an item that
  is not a dict, and an item whose \<open>type\<close> is \<open>"file"\<close> is reduced to three of its fields.
\<close>

fun collect_files :: "json list \<Rightarrow> pyexn + json list" where
  "collect_files [] = Inr []"
| "collect_files (it # items) =
     (case it of
        JObject kvs \<Rightarrow>
          (case collect_files items of
             Inl e \<Rightarrow> Inl e
           | Inr files \<Rightarrow>
               if dict_get kvs (ustr ''type'') = Some (JStr ''file'')
               then Inr (JObject [(ustr ''name'', get_or_none kvs (ustr ''name'')),
                                  (ustr ''path'', get_or_none kvs (ustr ''path'')),
                                  (ustr ''download_url'', get_or_none kvs (ustr ''download_url''))] # files)
               else Inr files)
      | _ \<Rightarrow> Inl AttributeError)"

definition list_user ::
  "'s github \<Rightarrow> config \<Rightarrow> pystr \<Rightarrow> 's world \<Rightarrow> (pyexn + response) \<times> 's world" where
  "list_user api cfg userId0 w =
     (let userId = strip userId0
      in case load_users_registry api cfg w of
           (Inl e, w1) \<Rightarrow> (Inl e, w1)
         | (Inr (sha, data), w1) \<Rightarrow>
             (case py_contains userId data of
                Inl e \<Rightarrow> (Inl e, w1)
              | Inr False \<Rightarrow> (Inr (jsonify [(''error'', JStr ''Unknown userId'')] 404), w1)
              | Inr True \<Rightarrow>
                  (let url = contents_url cfg (NOTES_FOLDER cfg @ ustr ''/'' @ userId);
                       (r, w2) = requests_send api (GET url (BRANCH cfg)) w1
                   in if status_code r = 200 then
                        (case json_body r of
                           NotJson msg \<Rightarrow> (Inl (JSONDecodeError msg), w2)
                         | FileObject sha raw \<Rightarrow> (Inl AttributeError, w2)
                         | JsonValue v \<Rightarrow>
                             (case py_iter v of
                                Inl e \<Rightarrow> (Inl e, w2)
                              | Inr items \<Rightarrow>
                                  (case collect_files items of
                                     Inl e \<Rightarrow> (Inl e, w2)
                                   | Inr files \<Rightarrow>
                                       (Inr (jsonify [(''success'', JBool True),
                                                      (''files'', JArray files)] 200), w2))))
                      else if status_code r = 404
                      then (Inr (jsonify [(''success'', JBool True), (''files'', JArray [])] 200), w2)
                      else (Inr (jsonify [(''error'', JStr ''GitHub list failed''),
                                          (''detail'', JString (r_text r))] 500), w2))))"

record delete_request =
  data_filePath :: "pystr option"
  data_userId :: "pystr option"
  data_token :: "pystr option"

definition delete_file ::
  "pylib \<Rightarrow> 's github \<Rightarrow> config \<Rightarrow> delete_request \<Rightarrow> 's world
     \<Rightarrow> (pyexn + response) \<times> 's world" where
  "delete_file lib api cfg req w =
     (let filePath = str_or_empty (data_filePath req);
          userId = str_or_empty (data_userId req);
          token = str_or_empty (data_token req)
      in if \<not> (filePath \<noteq> [] \<and> userId \<noteq> [] \<and> token \<noteq> [])
         then (Inr (jsonify [(''error'', JStr ''filePath, userId and token required'')] 400), w)
         else
           (case load_users_registry api cfg w of
              (Inl e, w1) \<Rightarrow> (Inl e, w1)
            | (Inr (sha0, data), w1) \<Rightarrow>
                (case py_get data userId of
                   Inl e \<Rightarrow> (Inl e, w1)
                 | Inr entry \<Rightarrow>
                     (case credentials_rejected lib entry token of
                        Inl e \<Rightarrow> (Inl e, w1)
                      | Inr True \<Rightarrow>
                          (Inr (jsonify [(''error'', JStr ''Invalid userId or token'')] 403), w1)
                      | Inr False \<Rightarrow>
                          if \<not> prefix (NOTES_FOLDER cfg @ ustr ''/'' @ userId @ ustr ''/'') filePath
                          then (Inr (jsonify [(''error'', JStr ''You can only delete your own files'')] 403), w1)
                          else
                            (case get_repo_file api cfg filePath w1 of
                               (Inl e, w2) \<Rightarrow> (Inl e, w2)
                             | (Inr None, w2) \<Rightarrow>
                                 (Inr (jsonify [(''error'', JStr ''File not found'')] 404), w2)
                             | (Inr (Some (sha, content)), w2) \<Rightarrow>
                                 (case delete_repo_file api cfg filePath sha w2 of
                                    (Inl e, w3) \<Rightarrow>
                                      (Inr (jsonify [(''error'', JStr ''Delete failed''),
                                                     (''detail'', JString (exn_str e))] 500), w3)
                                  | (Inr res, w3) \<Rightarrow>
                                      (Inr (jsonify [(''success'', JBool True)] 200), w3)))))))"

section \<open>A reference backing store\<close>

text \<open>
  A small store with the contract of the contents API, for running the handlers on
  concrete requests: files by URL with a version token, a file is created by a \<open>PUT\<close>
  without \<open>sha\<close> and replaced or deleted only with its current \<open>sha\<close>, and a \<open>GET\<close> of a
  directory lists the files directly under it.  \<open>ascii_lib\<close> fixes the library parameters,
  with \<open>isalnum\<close> restricted to ASCII.
\<close>

type_synonym repo = "(pystr \<times> pystr \<times> bytes) list"

definition blob_id :: "bytes \<Rightarrow> pystr" where
  "blob_id content = ustr ''blob'' @ str_nat (length content)"

definition dir_listing :: "repo \<Rightarrow> pystr \<Rightarrow> json list" where
  "dir_listing files url =
     map (\<lambda>(u, sha, content).
            JObject [(ustr ''name'', JString (drop (Suc (length url)) u)),
                     (ustr ''path'', JString u),
                     (ustr ''sha'', JString sha),
                     (ustr ''type'', JStr ''file''),
                     (ustr ''download_url'', JString u)])
       (filter (\<lambda>(u, sha, content).
                  prefix (url @ ustr ''/'') u \<and> 47 \<notin> set (drop (Suc (length url)) u)) files)"

definition reply :: "nat \<Rightarrow> gh_json \<Rightarrow> gh_response" where
  "reply code j = \<lparr>status_code = code, r_text = [], json_body = j\<rparr>"

fun fake_github :: "repo github" where
  "fake_github files (GET url ref) =
     (case dict_get files url of
        Some (sha, content) \<Rightarrow> (reply 200 (FileObject sha content), files)
      | None \<Rightarrow>
          if dir_listing files url = [] then (reply 404 (JsonValue JNull), files)
          else (reply 200 (JsonValue (JArray (dir_listing files url))), files))"
| "fake_github files (PUT url message content branch sha) =
     (case dict_get files url of
        None \<Rightarrow>
          if sha = None
          then (reply 201 (JsonValue JNull), dict_set files url (blob_id content, content))
          else (reply 422 (JsonValue JNull), files)
      | Some (cur, old) \<Rightarrow>
          if sha = Some cur
          then (reply 200 (JsonValue JNull), dict_set files url (blob_id content, content))
          else (reply 409 (JsonValue JNull), files))"
| "fake_github files (DELETE url message sha branch) =
     (case dict_get files url of
        None \<Rightarrow> (reply 404 (JsonValue JNull), files)
      | Some (cur, old) \<Rightarrow>
          if sha = cur then (reply 200 (JsonValue JNull), dict_del files url)
          else (reply 409 (JsonValue JNull), files))"

definition ascii_isalnum :: "nat \<Rightarrow> bool" where
  "ascii_isalnum c \<longleftrightarrow> (48 \<le> c \<and> c \<le> 57) \<or> (65 \<le> c \<and> c \<le> 90) \<or> (97 \<le> c \<and> c \<le> 122)"

definition ascii_lib :: pylib where
  "ascii_lib = \<lparr>isalnum = ascii_isalnum, float_repr = (\<lambda>x. x), float_truthy = (\<lambda>x. True)\<rparr>"

definition new_world :: "repo \<Rightarrow> repo world" where
  "new_world files = \<lparr>remote = files, log = []\<rparr>"

section \<open>Well-formed text and JSON without floats\<close>

text \<open>
  The notions in which the properties of the JSON functions are stated; they are not part
  of the program.  A string is well formed when its code points are below U+110000 and no
  high surrogate is directly followed by a low surrogate: every string that was decoded
  from UTF-8 or read by \<open>json.loads\<close> is.  \<open>wf_json\<close> are the JSON values without
  floats whose strings are well formed and whose objects have distinct keys, as every
  \<open>dict\<close> has.
\<close>

fun wf_str :: "pystr \<Rightarrow> bool" where
  "wf_str [] = True"
| "wf_str [c] = (c < 1114112)"
| "wf_str (c # d # s) =
     (c < 1114112 \<and> \<not> (is_high_surrogate c \<and> is_low_surrogate d) \<and> wf_str (d # s))"

fun wf_json :: "json \<Rightarrow> bool"
  and wf_list :: "json list \<Rightarrow> bool"
  and wf_dict :: "(pystr \<times> json) list \<Rightarrow> bool"
where
  "wf_json JNull = True"
| "wf_json (JBool b) = True"
| "wf_json (JInt i) = True"
| "wf_json (JFloat x) = False"
| "wf_json (JString s) = wf_str s"
| "wf_json (JArray xs) = wf_list xs"
| "wf_json (JObject kvs) = (distinct (map fst kvs) \<and> wf_dict kvs)"
| "wf_list [] = True"
| "wf_list (x # xs) = (wf_json x \<and> wf_list xs)"
| "wf_dict [] = True"
| "wf_dict (kv # kvs) = (wf_str (fst kv) \<and> wf_json (snd kv) \<and> wf_dict kvs)"

text \<open>
  For the proofs: the text after a value in the output of the encoder starts with a comma
  or a line feed, or is empty; the text after an escaped character does not start with
  the escape of a low surrogate; a string is ASCII.
\<close>

definition follow_ok :: "pystr \<Rightarrow> bool" where
  "follow_ok rest \<longleftrightarrow> (case rest of [] \<Rightarrow> True | c # r \<Rightarrow> c = 44 \<or> c = 10)"

definition no_low_escape :: "pystr \<Rightarrow> bool" where
  "no_low_escape t \<longleftrightarrow>
     (take 2 t = [92, 117] \<longrightarrow> (\<exists>u. decode_uXXXX (drop 2 t) = Some u \<and> \<not> is_low_surrogate u))"

definition ascii :: "pystr \<Rightarrow> bool" where
  "ascii s \<longleftrightarrow> (\<forall>c \<in> set s. c < 128)"

section \<open>Properties of \<open>safe_filename\<close>\<close>

lemma safe_filename_map:
  "safe_filename alnum name =
     map (\<lambda>c. if alnum c \<or> c = 46 \<or> c = 95 \<or> c = 45 then c else 95) name"
  by (induction name) (auto simp: safe_filename_def ustr_def)

text \<open>
  Claim C6.  For every input string, \<open>safe_filename\<close> returns a string of the same length
  in which each character that is alphanumeric or one of \<open>.\<close> (46), \<open>_\<close> (95), \<open>-\<close> (45)
  is unchanged, and every other character is replaced with \<open>_\<close>.
\<close>

theorem safe_filename_pointwise:
  "length (safe_filename alnum name) = length name \<and>
   (\<forall>i < length name.
      (alnum (name ! i) \<or> name ! i = 46 \<or> name ! i = 95 \<or> name ! i = 45
         \<longrightarrow> safe_filename alnum name ! i = name ! i) \<and>
      (\<not> (alnum (name ! i) \<or> name ! i = 46 \<or> name ! i = 95 \<or> name ! i = 45)
         \<longrightarrow> safe_filename alnum name ! i = 95))"
  by (simp add: safe_filename_map)

theorem safe_filename_pointwise_witness:
  "safe_filename ascii_isalnum (ustr ''my file(1).txt'') = ustr ''my_file_1_.txt''"
  using safe_filename_pointwise [of ascii_isalnum "ustr ''my file(1).txt''"]
  by (simp add: safe_filename_map ustr_def ascii_isalnum_def)

text \<open>
  Claim C10.  \<open>safe_filename\<close> is idempotent: sanitizing a sanitized name changes nothing.
\<close>

theorem safe_filename_idempotent:
  "safe_filename alnum (safe_filename alnum s) = safe_filename alnum s"
  by (simp add: safe_filename_map)

section \<open>Evaluation rules\<close>

text \<open>
  Rules with which the simplifier runs the model on concrete inputs: the definitions,
  and the unfolding of the bounded functions at a numeral.
\<close>

lemma replicate_numeral_eval:
  "replicate (numeral k) x = x # replicate (pred_numeral k) x"
  by (simp add: numeral_eq_Suc)

lemma scan_once_numeral:
  "scan_once (numeral k) s = scan_once (Suc (pred_numeral k)) s"
  "parse_array (numeral k) acc s = parse_array (Suc (pred_numeral k)) acc s"
  "parse_object (numeral k) kvs s = parse_object (Suc (pred_numeral k)) kvs s"
  by (simp_all only: numeral_eq_Suc)

lemmas eval_defs = replicate_numeral_eval
  ustr_def strip_def py_isspace_def replace_space_def str_or_empty_def str_int_def
  utf8_encode_def utf8_encode_char_def utf8_decode_def is_cont_def JStr_def
  hexdigit_def hex4_def escape_char_def encode_basestring_ascii_def newline_indent_def json_dumps_def
  is_whitespace_def skip_ws_def hexval_def backslash_def is_high_surrogate_def is_low_surrogate_def
  join_surrogates_def cons_result_def is_digit_def digits_value_def match_integer_def match_frac_def
  match_exp_def int_of_lexeme_def match_number_def match_literal_def json_loads_def scan_once_numeral
  exn_str_def get_or_none_def default_config_def GITHUB_API_def requests_send_def response_json_def
  is_put_def is_delete_def contents_url_def get_repo_file_def put_repo_file_def delete_repo_file_def
  load_users_registry_def save_users_registry_def safe_filename_def jsonify_def check_user_def
  user_entry_def register_def credentials_rejected_def upload_def list_user_def delete_file_def
  blob_id_def dir_listing_def reply_def ascii_isalnum_def ascii_lib_def new_world_def Let_def

section \<open>What the handlers send to the backing store\<close>

lemma requests_send_log:
  "requests_send api req w = (r, w') \<Longrightarrow> log w' = log w @ [req]"
  by (auto simp: requests_send_def split: prod.splits)

lemma get_repo_file_log:
  "get_repo_file api cfg path w = (res, w') \<Longrightarrow>
     log w' = log w @ [GET (contents_url cfg path) (BRANCH cfg)]"
  by (auto simp: get_repo_file_def Let_def dest!: requests_send_log
           split: prod.splits if_splits gh_json.splits option.splits json.splits)

lemma load_users_registry_log:
  "load_users_registry api cfg w = (res, w') \<Longrightarrow>
     log w' = log w @ [GET (contents_url cfg (USERS_FILE_PATH cfg)) (BRANCH cfg)]"
  by (auto simp: load_users_registry_def dest!: get_repo_file_log
           split: prod.splits sum.splits option.splits)

lemma jsonify_status [simp]: "status (jsonify kvs code) = code"
  by (simp add: jsonify_def)

lemma credentials_rejected_cases:
  assumes "case entry of
             None \<Rightarrow> True
           | Some (JObject kvs) \<Rightarrow> dict_get kvs (ustr ''token'') \<noteq> Some (JString token)
           | Some e \<Rightarrow> \<not> truthy lib e"
  shows "credentials_rejected lib entry token = Inr True"
  using assms by (auto simp: credentials_rejected_def split: option.splits json.splits)


section \<open>Deleting outside the own namespace\<close>






section \<open>Uploading\<close>

text \<open>
  Claim C2, as the code has it.  For every upload request that has a file part and whose
  \<open>userId\<close> and \<open>token\<close> are non-empty after stripping, when the registry loads as a JSON
  object: if there is no entry for the stripped \<open>userId\<close>, or the entry is a JSON object
  whose \<open>token\<close> is not the stripped token of the request, or the entry is a falsy value,
  then the handler answers 403, whatever the file's name and content, and has sent
  nothing to the backing store but the \<open>GET\<close> of the registry.
\<close>

theorem upload_bad_token_403:
  assumes "files_file req = Some f"
    and "strip (str_or_empty (form_userId req)) \<noteq> []"
    and "strip (str_or_empty (form_token req)) \<noteq> []"
    and "fst (load_users_registry api cfg w) = Inr (sha, JObject users)"
    and "case dict_get users (strip (str_or_empty (form_userId req))) of
           None \<Rightarrow> True
         | Some (JObject kvs) \<Rightarrow>
             dict_get kvs (ustr ''token'') \<noteq> Some (JString (strip (str_or_empty (form_token req))))
         | Some e \<Rightarrow> \<not> truthy lib e"
  shows "upload lib api cfg now_ms req w =
           (Inr (jsonify [(''error'', JStr ''Invalid userId or token'')] 403),
            snd (load_users_registry api cfg w))"
proof -
  obtain w1 where l: "load_users_registry api cfg w = (Inr (sha, JObject users), w1)"
    using assms(4) by (cases "load_users_registry api cfg w") auto
  have c: "credentials_rejected lib (dict_get users (strip (str_or_empty (form_userId req))))
             (strip (str_or_empty (form_token req))) = Inr True"
    by (rule credentials_rejected_cases [OF assms(5)])
  show ?thesis
    using assms(1-3) l c by (simp add: upload_def Let_def)
qed

theorem upload_bad_token_403_witness:
  "upload ascii_lib fake_github default_config 5
     \<lparr>files_file = Some \<lparr>filename = Some (ustr ''a.txt''), stream = ''hello''\<rparr>,
      form_userId = Some (ustr ''bob''), form_token = Some (ustr ''wrong'')\<rparr>
     (new_world [(contents_url default_config (ustr ''users.json''), ustr ''abc'',
                  ''{\"bob\": {\"token\": \"tb\"}}'')])
   = (Inr (jsonify [(''error'', JStr ''Invalid userId or token'')] 403),
      snd (load_users_registry fake_github default_config
             (new_world [(contents_url default_config (ustr ''users.json''), ustr ''abc'',
                          ''{\"bob\": {\"token\": \"tb\"}}'')])))"
proof -
  let ?f = "\<lparr>filename = Some (ustr ''a.txt''), stream = ''hello''\<rparr>"
  let ?req = "\<lparr>files_file = Some ?f, form_userId = Some (ustr ''bob''),
               form_token = Some (ustr ''wrong'')\<rparr>"
  let ?w = "new_world [(contents_url default_config (ustr ''users.json''), ustr ''abc'',
                        ''{\"bob\": {\"token\": \"tb\"}}'')]"
  let ?users = "[(ustr ''bob'', JObject [(ustr ''token'', JString (ustr ''tb''))])]"
  have h1: "files_file ?req = Some ?f" by simp
  have h2: "strip (str_or_empty (form_userId ?req)) \<noteq> []" by (simp add: eval_defs)
  have h3: "strip (str_or_empty (form_token ?req)) \<noteq> []" by (simp add: eval_defs)
  have h4: "fst (load_users_registry fake_github default_config ?w)
              = Inr (Some (ustr ''abc''), JObject ?users)"
    by (simp add: eval_defs)
  have h5: "case dict_get ?users (strip (str_or_empty (form_userId ?req))) of
              None \<Rightarrow> True
            | Some (JObject kvs) \<Rightarrow>
                dict_get kvs (ustr ''token'') \<noteq> Some (JString (strip (str_or_empty (form_token ?req))))
            | Some e \<Rightarrow> \<not> truthy ascii_lib e"
    by (simp add: eval_defs)
  show ?thesis
    by (rule upload_bad_token_403 [OF h1 h2 h3 h4 h5])
qed

theorem upload_no_file_counterexample:
  "fst (load_users_registry fake_github default_config (new_world [])) = Inr (None, JObject []) \<and>
   fst (upload ascii_lib fake_github default_config 5
     \<lparr>files_file = None, form_userId = Some (ustr ''bob''), form_token = Some (ustr ''wrong'')\<rparr>
     (new_world []))
   = Inr \<lparr>status = 400, body = JObject [(ustr ''error'', JStr ''No file uploaded'')]\<rparr>"
  by (simp add: eval_defs)

text \<open>
  Claim C7, as the code has it.  Whenever the upload handler answers with status 200,
  the request has a file part and the body of the response is \<open>success\<close>, \<open>url\<close> and
  \<open>path\<close>, where \<open>path\<close> is \<open>NOTES_FOLDER + "/" + userId + "/" + timestamp + "_" +
  safe_filename(name)\<close>, with \<open>userId\<close> the form field stripped of surrounding whitespace,
  \<open>timestamp\<close> the clock reading in decimal and \<open>name\<close> the file name of the part, or
  \<open>file\<close> when that is missing or empty; \<open>url\<close> is \<open>"https://" + GITHUB_OWNER +
  ".github.io/" + GITHUB_REPO + "/" + path\<close>.
\<close>

theorem upload_success_path_url:
  assumes "fst (upload lib api cfg now_ms req w) = Inr resp"
    and "status resp = 200"
  shows "\<exists>f path.
           files_file req = Some f \<and>
           path = NOTES_FOLDER cfg @ ustr ''/'' @ strip (str_or_empty (form_userId req)) @ ustr ''/'' @
                  str_int now_ms @ ustr ''_'' @
                  safe_filename (isalnum lib)
                    (case filename f of None \<Rightarrow> ustr ''file''
                     | Some n \<Rightarrow> if n = [] then ustr ''file'' else n) \<and>
           body resp = JObject
             [(ustr ''success'', JBool True),
              (ustr ''url'', JString (ustr ''https://'' @ GITHUB_OWNER cfg @ ustr ''.github.io/'' @
                                     GITHUB_REPO cfg @ ustr ''/'' @ path)),
              (ustr ''path'', JString path)]"
  using assms
  by (auto simp: upload_def Let_def jsonify_def
           split: option.splits if_splits prod.splits sum.splits bool.splits)

theorem upload_success_path_url_witness:
  "fst (upload ascii_lib fake_github default_config 1700000000123
     \<lparr>files_file = Some \<lparr>filename = Some (ustr ''my notes.txt''), stream = ''hello''\<rparr>,
      form_userId = Some (ustr '' bob ''), form_token = Some (ustr ''tb'')\<rparr>
     (new_world [(contents_url default_config (ustr ''users.json''), ustr ''abc'',
                  ''{\"bob\": {\"token\": \"tb\"}}'')]))
   = Inr \<lparr>status = 200, body = JObject
       [(ustr ''success'', JBool True),
        (ustr ''url'', JStr ''https://akmaurya321.github.io/NotesViewer/notes/bob/1700000000123_my_notes.txt''),
        (ustr ''path'', JStr ''notes/bob/1700000000123_my_notes.txt'')]\<rparr>"
proof -
  let ?req = "\<lparr>files_file = Some \<lparr>filename = Some (ustr ''my notes.txt''), stream = ''hello''\<rparr>,
               form_userId = Some (ustr '' bob ''), form_token = Some (ustr ''tb'')\<rparr>"
  let ?w = "new_world [(contents_url default_config (ustr ''users.json''), ustr ''abc'',
                        ''{\"bob\": {\"token\": \"tb\"}}'')]"
  obtain resp where r: "fst (upload ascii_lib fake_github default_config 1700000000123 ?req ?w) = Inr resp"
    and s: "status resp = 200"
    by (simp add: eval_defs str_nat.simps)
  from upload_success_path_url [OF r s]
  have "body resp = JObject
       [(ustr ''success'', JBool True),
        (ustr ''url'', JStr ''https://akmaurya321.github.io/NotesViewer/notes/bob/1700000000123_my_notes.txt''),
        (ustr ''path'', JStr ''notes/bob/1700000000123_my_notes.txt'')]"
    by (simp add: eval_defs str_nat.simps)
  with r s show ?thesis
    by (cases resp) simp
qed

theorem upload_empty_filename_counterexample:
  "fst (upload ascii_lib fake_github default_config 5
     \<lparr>files_file = Some \<lparr>filename = Some [], stream = ''hello''\<rparr>,
      form_userId = Some (ustr ''bob''), form_token = Some (ustr ''tb'')\<rparr>
     (new_world [(contents_url default_config (ustr ''users.json''), ustr ''abc'',
                  ''{\"bob\": {\"token\": \"tb\"}}'')]))
   = Inr \<lparr>status = 200, body = JObject
       [(ustr ''success'', JBool True),
        (ustr ''url'', JStr ''https://akmaurya321.github.io/NotesViewer/notes/bob/5_file''),
        (ustr ''path'', JStr ''notes/bob/5_file'')]\<rparr> \<and>
   NOTES_FOLDER default_config @ ustr ''/'' @ ustr ''bob'' @ ustr ''/'' @ str_int 5 @ ustr ''_'' @
     safe_filename ascii_isalnum [] = ustr ''notes/bob/5_'' \<and>
   ustr ''notes/bob/5_file'' \<noteq> ustr ''notes/bob/5_''"
  by (simp add: eval_defs str_nat.simps)

section \<open>Registering a taken name\<close>

lemma register_success_valid:
  assumes "fst (register lib api cfg uuid_hex now_ms req w) = Inr resp" and "status resp = 200"
  shows "strip (str_or_empty (body_userId req)) \<noteq> [] \<and>
         length (replace_space (strip (str_or_empty (body_userId req)))) \<le> 64"
  using assms
  by (auto simp: register_def Let_def
           split: if_splits prod.splits sum.splits bool.splits json.splits)

text \<open>
  Claim C5.  Take a register request that has succeeded once (so its userId passed the
  checks of the handler).  Whenever the registry loads and the userId, stripped and with
  spaces replaced by underscores, is found in it, the request is answered with 409
  \<open>userId already taken\<close>, and the handler leaves the world as the load of the registry
  left it: nothing is written.
\<close>

theorem register_taken_409:
  assumes "fst (register lib api0 cfg uuid0 now0 req w0) = Inr resp0" and "status resp0 = 200"
    and "fst (load_users_registry api cfg w) = Inr (sha, users)"
    and "py_contains (replace_space (strip (str_or_empty (body_userId req)))) users = Inr True"
  shows "register lib api cfg uuid_hex now_ms req w =
           (Inr (jsonify [(''error'', JStr ''userId already taken'')] 409),
            snd (load_users_registry api cfg w)) \<and>
         log (snd (register lib api cfg uuid_hex now_ms req w)) =
           log w @ [GET (contents_url cfg (USERS_FILE_PATH cfg)) (BRANCH cfg)]"
proof -
  obtain w1 where l: "load_users_registry api cfg w = (Inr (sha, users), w1)"
    using assms(3) by (cases "load_users_registry api cfg w") auto
  have v: "strip (str_or_empty (body_userId req)) \<noteq> [] \<and>
           length (replace_space (strip (str_or_empty (body_userId req)))) \<le> 64"
    by (rule register_success_valid [OF assms(1,2)])
  have "register lib api cfg uuid_hex now_ms req w =
          (Inr (jsonify [(''error'', JStr ''userId already taken'')] 409), w1)"
    using v l assms(4) by (simp add: register_def Let_def)
  with l load_users_registry_log [OF l] show ?thesis
    by simp
qed

theorem register_taken_409_witness:
  "fst (register ascii_lib fake_github default_config (ustr ''0f'') 5
          \<lparr>body_userId = Some (ustr ''al''), body_displayName = None\<rparr> (new_world []))
     = Inr (jsonify [(''success'', JBool True), (''userId'', JStr ''al''), (''token'', JStr ''0f'')] 200) \<and>
   fst (register ascii_lib fake_github default_config (ustr ''1e'') 6
          \<lparr>body_userId = Some (ustr ''al''), body_displayName = None\<rparr>
          (snd (register ascii_lib fake_github default_config (ustr ''0f'') 5
                  \<lparr>body_userId = Some (ustr ''al''), body_displayName = None\<rparr> (new_world []))))
     = Inr (jsonify [(''error'', JStr ''userId already taken'')] 409)"
proof -
  let ?req = "\<lparr>body_userId = Some (ustr ''al''), body_displayName = None\<rparr>"
  let ?r1 = "register ascii_lib fake_github default_config (ustr ''0f'') 5 ?req (new_world [])"
  have first: "fst ?r1 = Inr (jsonify [(''success'', JBool True), (''userId'', JStr ''al''),
                                      (''token'', JStr ''0f'')] 200)"
    by (simp add: eval_defs str_nat.simps)
  have st: "status (jsonify [(''success'', JBool True), (''userId'', JStr ''al''),
                             (''token'', JStr ''0f'')] 200) = 200"
    by simp
  have ld: "fst (load_users_registry fake_github default_config (snd ?r1))
              = Inr (Some (ustr ''blob74''),
                     JObject [(ustr ''al'', user_entry (ustr ''0f'') [] 5)])"
    by (simp add: eval_defs str_nat.simps)
  have inn: "py_contains (replace_space (strip (str_or_empty (body_userId ?req))))
               (JObject [(ustr ''al'', user_entry (ustr ''0f'') [] 5)]) = Inr True"
    by (simp add: eval_defs)
  from register_taken_409 [OF first st ld inn, of "ustr ''1e''" 6] first show ?thesis
    by simp
qed

section \<open>Listing\<close>

lemma collect_files_objects:
  "collect_files (map JObject entries) =
     Inr [JObject [(ustr ''name'', get_or_none kvs (ustr ''name'')),
                   (ustr ''path'', get_or_none kvs (ustr ''path'')),
                   (ustr ''download_url'', get_or_none kvs (ustr ''download_url''))].
          kvs \<leftarrow> entries, dict_get kvs (ustr ''type'') = Some (JStr ''file'')]"
  by (induction entries) auto

text \<open>
  Claim C8.  Let the registry load and contain the userId the handler looks up (the path
  segment stripped of surrounding whitespace), and let \<open>r\<close> be the answer of the backing
  store to the \<open>GET\<close> of the user's directory.  If \<open>r\<close> has status 200 and carries a
  directory listing, the handler answers 200 with \<open>success\<close> and, in \<open>files\<close>, exactly the
  entries whose \<open>type\<close> is \<open>"file"\<close>, in order, each reduced to \<open>name\<close>, \<open>path\<close> and
  \<open>download_url\<close>.  If \<open>r\<close> has status 404, it answers 200 with an empty \<open>files\<close> list.
  On any other status it answers 500.
\<close>

theorem list_user_known:
  assumes "load_users_registry api cfg w = (Inr (sha, data), w1)"
    and "py_contains (strip userId) data = Inr True"
    and "requests_send api
           (GET (contents_url cfg (NOTES_FOLDER cfg @ ustr ''/'' @ strip userId)) (BRANCH cfg)) w1
         = (r, w2)"
  shows "(status_code r = 200 \<and> json_body r = JsonValue (JArray (map JObject entries)) \<longrightarrow>
            list_user api cfg userId w =
              (Inr (jsonify
                 [(''success'', JBool True),
                  (''files'', JArray
                     [JObject [(ustr ''name'', get_or_none kvs (ustr ''name'')),
                               (ustr ''path'', get_or_none kvs (ustr ''path'')),
                               (ustr ''download_url'', get_or_none kvs (ustr ''download_url''))].
                      kvs \<leftarrow> entries, dict_get kvs (ustr ''type'') = Some (JStr ''file'')])] 200), w2)) \<and>
         (status_code r = 404 \<longrightarrow>
            list_user api cfg userId w =
              (Inr (jsonify [(''success'', JBool True), (''files'', JArray [])] 200), w2)) \<and>
         (status_code r \<noteq> 200 \<and> status_code r \<noteq> 404 \<longrightarrow>
            list_user api cfg userId w =
              (Inr (jsonify [(''error'', JStr ''GitHub list failed''),
                             (''detail'', JString (r_text r))] 500), w2))"
  using assms by (simp add: list_user_def Let_def collect_files_objects)

theorem list_user_known_witness:
  "fst (list_user fake_github default_config (ustr ''bob'')
     (new_world [(contents_url default_config (ustr ''users.json''), ustr ''abc'',
                  ''{\"bob\": {\"token\": \"tb\"}}''),
                 (contents_url default_config (ustr ''notes/bob/5_a.txt''), ustr ''def'', ''hello'')]))
   = Inr (jsonify
       [(''success'', JBool True),
        (''files'', JArray
           [JObject [(ustr ''name'', JStr ''5_a.txt''),
                     (ustr ''path'', JString (contents_url default_config (ustr ''notes/bob/5_a.txt''))),
                     (ustr ''download_url'',
                      JString (contents_url default_config (ustr ''notes/bob/5_a.txt'')))]])] 200)"
proof -
  let ?files = "[(contents_url default_config (ustr ''users.json''), ustr ''abc'',
                  ''{\"bob\": {\"token\": \"tb\"}}''),
                 (contents_url default_config (ustr ''notes/bob/5_a.txt''), ustr ''def'', ''hello'')]"
  let ?w = "new_world ?files"
  let ?w1 = "\<lparr>remote = ?files,
              log = [GET (contents_url default_config (USERS_FILE_PATH default_config))
                       (BRANCH default_config)]\<rparr>"
  let ?entry = "[(ustr ''name'', JStr ''5_a.txt''),
                 (ustr ''path'', JString (contents_url default_config (ustr ''notes/bob/5_a.txt''))),
                 (ustr ''sha'', JStr ''def''),
                 (ustr ''type'', JStr ''file''),
                 (ustr ''download_url'', JString (contents_url default_config (ustr ''notes/bob/5_a.txt'')))]"
  let ?r = "reply 200 (JsonValue (JArray (map JObject [?entry])))"
  let ?w2 = "\<lparr>remote = ?files,
              log = [GET (contents_url default_config (USERS_FILE_PATH default_config))
                       (BRANCH default_config),
                     GET (contents_url default_config
                            (NOTES_FOLDER default_config @ ustr ''/'' @ strip (ustr ''bob'')))
                       (BRANCH default_config)]\<rparr>"
  have ld: "load_users_registry fake_github default_config ?w
              = (Inr (Some (ustr ''abc''),
                      JObject [(ustr ''bob'', JObject [(ustr ''token'', JString (ustr ''tb''))])]), ?w1)"
    by (simp add: eval_defs)
  have inn: "py_contains (strip (ustr ''bob''))
               (JObject [(ustr ''bob'', JObject [(ustr ''token'', JString (ustr ''tb''))])]) = Inr True"
    by (simp add: eval_defs)
  have snd: "requests_send fake_github
               (GET (contents_url default_config
                       (NOTES_FOLDER default_config @ ustr ''/'' @ strip (ustr ''bob'')))
                  (BRANCH default_config)) ?w1 = (?r, ?w2)"
    by (simp add: eval_defs)
  have st: "status_code ?r = 200 \<and> json_body ?r = JsonValue (JArray (map JObject [?entry]))"
    by (simp add: reply_def)
  from list_user_known [OF ld inn snd, of "[?entry]"] st
  have "list_user fake_github default_config (ustr ''bob'') ?w =
          (Inr (jsonify
             [(''success'', JBool True),
              (''files'', JArray
                 [JObject [(ustr ''name'', get_or_none kvs (ustr ''name'')),
                           (ustr ''path'', get_or_none kvs (ustr ''path'')),
                           (ustr ''download_url'', get_or_none kvs (ustr ''download_url''))].
                  kvs \<leftarrow> [?entry], dict_get kvs (ustr ''type'') = Some (JStr ''file'')])] 200), ?w2)"
    by blast
  then show ?thesis
    by (simp add: get_or_none_def ustr_def JStr_def)
qed

section \<open>Loading a registry file that is not a JSON object\<close>

lemma load_users_registry_unparsable:
  assumes "get_repo_file api cfg (USERS_FILE_PATH cfg) w = (Inr (Some (sha, content)), w')"
    and "json_loads content = None"
  shows "load_users_registry api cfg w = (Inr (Some sha, JObject []), w')"
  using assms by (simp add: load_users_registry_def)

text \<open>
  Claim C4, at a registry file whose content is the JSON text \<open>[]\<close>: the content parses,
  so \<open>load_users_registry\<close> returns the list it parsed to, not an empty mapping, and
  \<open>register\<close> then fails on it with a \<open>TypeError\<close>.
\<close>

theorem load_users_registry_json_array:
  "fst (load_users_registry fake_github default_config
          (new_world [(contents_url default_config (ustr ''users.json''), ustr ''abc'', ''[]'')]))
     = Inr (Some (ustr ''abc''), JArray []) \<and>
   JArray [] \<noteq> JObject [] \<and>
   fst (register ascii_lib fake_github default_config (ustr ''0f'') 5
          \<lparr>body_userId = Some (ustr ''al''), body_displayName = None\<rparr>
          (new_world [(contents_url default_config (ustr ''users.json''), ustr ''abc'', ''[]'')]))
     = Inl TypeError"
  by (simp add: eval_defs)

section \<open>Reading back what the encoder wrote\<close>

lemma hexval_hexdigit: "d < 16 \<Longrightarrow> hexval (hexdigit d) = Some d"
  by (auto simp: hexval_def hexdigit_def)

lemma hex4_value:
  fixes n :: nat
  assumes "n < 65536"
  shows "n div 4096 mod 16 * 4096 + n div 256 mod 16 * 256 + n div 16 mod 16 * 16 + n mod 16 = n"
proof -
  have d2: "n div 256 = n div 16 div 16" and d3: "n div 4096 = n div 256 div 16"
    by (simp_all add: div_mult2_eq [symmetric])
  have e1: "n = 16 * (n div 16) + n mod 16"
    by simp
  have e2: "n div 16 = 16 * (n div 256) + n div 16 mod 16"
    unfolding d2 by simp
  have e3: "n div 256 = 16 * (n div 4096) + n div 256 mod 16"
    unfolding d3 by simp
  have c: "n div 4096 mod 16 = n div 4096"
    using assms by simp
  show ?thesis
    unfolding c using e1 e2 e3 by linarith
qed

lemma decode_hex4:
  assumes "n < 65536"
  shows "decode_uXXXX (hex4 n @ r) = Some n"
proof -
  have "decode_uXXXX (hex4 n @ r) =
          Some (n div 4096 mod 16 * 4096 + n div 256 mod 16 * 256 + n div 16 mod 16 * 16 + n mod 16)"
    by (simp add: hex4_def hexval_hexdigit)
  then show ?thesis
    by (simp only: hex4_value [OF assms])
qed

lemma str_nat_digits: "c \<in> set (str_nat n) \<Longrightarrow> is_digit c"
proof (induction n arbitrary: c rule: str_nat.induct)
  case (1 n)
  show ?case
  proof (cases "n < 10")
    case True
    with 1(2) show ?thesis by (simp add: str_nat.simps [of n] is_digit_def)
  next
    case False
    with 1 show ?thesis
      by (auto simp: str_nat.simps [of n] is_digit_def)
  qed
qed

lemma str_nat_not_Nil: "str_nat n \<noteq> []"
  by (simp add: str_nat.simps [of n])

lemma digits_value_snoc: "digits_value (ds @ [d]) = 10 * digits_value ds + (d - 48)"
  by (simp add: digits_value_def)

lemma digits_value_str_nat: "digits_value (str_nat n) = n"
proof (induction n rule: str_nat.induct)
  case (1 n)
  show ?case
  proof (cases "n < 10")
    case True
    then show ?thesis by (simp add: str_nat.simps [of n] digits_value_def)
  next
    case False
    with 1 show ?thesis
      by (simp add: str_nat.simps [of n] digits_value_snoc)
  qed
qed

lemma str_nat_0: "str_nat 0 = [48]"
  by (simp add: str_nat.simps)

lemma hd_str_nat: "0 < n \<Longrightarrow> 49 \<le> hd (str_nat n) \<and> hd (str_nat n) \<le> 57"
proof (induction n rule: str_nat.induct)
  case (1 n)
  show ?case
  proof (cases "n < 10")
    case True
    with 1(2) show ?thesis by (simp add: str_nat.simps [of n])
  next
    case False
    then have "0 < n div 10" by (simp add: div_greater_zero_iff)
    with 1(1) False have "49 \<le> hd (str_nat (n div 10)) \<and> hd (str_nat (n div 10)) \<le> 57" by simp
    with False show ?thesis
      by (simp add: str_nat.simps [of n] str_nat_not_Nil)
  qed
qed

lemma takeWhile_digits:
  "(\<forall>c \<in> set ds. is_digit c) \<Longrightarrow> follow_ok rest \<Longrightarrow>
     takeWhile is_digit (ds @ rest) = ds \<and> dropWhile is_digit (ds @ rest) = rest"
  by (cases rest) (auto simp: follow_ok_def is_digit_def takeWhile_append dropWhile_append)

lemma match_integer_str_nat:
  assumes "follow_ok rest"
  shows "match_integer (str_nat n @ rest) = Some (str_nat n, rest)"
proof (cases "n = 0")
  case True
  then show ?thesis by (simp add: str_nat_0 match_integer_def)
next
  case False
  then have h: "49 \<le> hd (str_nat n) \<and> hd (str_nat n) \<le> 57" using hd_str_nat by simp
  obtain d ds where s: "str_nat n = d # ds" using str_nat_not_Nil by (cases "str_nat n") auto
  have ds: "\<forall>c \<in> set ds. is_digit c" using str_nat_digits [of _ n] s by auto
  from h s have d: "49 \<le> d \<and> d \<le> 57" by simp
  with s takeWhile_digits [OF ds assms] show ?thesis
    by (simp add: match_integer_def)
qed

lemma match_integer_neg:
  assumes "follow_ok rest"
  shows "match_integer (45 # str_nat n @ rest) = Some (45 # str_nat n, rest)"
proof -
  have "match_integer (str_nat n @ rest) = Some (str_nat n, rest)"
    by (rule match_integer_str_nat [OF assms])
  moreover have "hd (str_nat n @ rest) \<noteq> 45"
    using str_nat_digits [of "hd (str_nat n)" n] str_nat_not_Nil [of n]
    by (cases "str_nat n") (auto simp: is_digit_def)
  ultimately show ?thesis
    using str_nat_not_Nil [of n]
    by (cases "str_nat n") (auto simp: match_integer_def split: if_splits list.splits)
qed

lemma match_frac_follow: "follow_ok rest \<Longrightarrow> match_frac rest = ([], rest)"
  by (auto simp: match_frac_def follow_ok_def split: list.splits)

lemma match_exp_follow: "follow_ok rest \<Longrightarrow> match_exp rest = ([], rest)"
  by (auto simp: match_exp_def follow_ok_def split: list.splits)

lemma match_number_str_int:
  assumes "follow_ok rest"
  shows "match_number (str_int i @ rest) = Some (JInt i, rest)"
proof (cases "i < 0")
  case True
  have "int_of_lexeme (45 # str_nat (nat (- i))) = i"
    using True by (simp add: int_of_lexeme_def digits_value_str_nat)
  with True show ?thesis
    by (simp add: match_number_def str_int_def match_integer_neg [OF assms]
          match_frac_follow [OF assms] match_exp_follow [OF assms])
next
  case False
  obtain a l where s: "str_nat (nat i) = a # l"
    using str_nat_not_Nil [of "nat i"] by (cases "str_nat (nat i)") auto
  have "is_digit a" using str_nat_digits [of a "nat i"] s by simp
  then have a: "a \<noteq> 45" by (auto simp: is_digit_def)
  have "digits_value (a # l) = nat i" using digits_value_str_nat [of "nat i"] s by simp
  with a False have "int_of_lexeme (a # l) = i" by (simp add: int_of_lexeme_def)
  with s have "int_of_lexeme (str_nat (nat i)) = i" by simp
  with False show ?thesis
    by (simp add: match_number_def str_int_def match_integer_str_nat [OF assms]
          match_frac_follow [OF assms] match_exp_follow [OF assms])
qed

lemma hex4_append: "hex4 n @ t = hex4 n ! 0 # hex4 n ! 1 # hex4 n ! 2 # hex4 n ! 3 # t"
  by (simp add: hex4_def)

lemma length_hex4 [simp]: "length (hex4 n) = 4"
  by (simp add: hex4_def)

lemma drop_hex4:
  "drop 4 (hex4 n @ t) = t" "drop 6 (hex4 n @ t) = drop 2 t" "drop 10 (hex4 n @ t) = drop 6 t"
  by (simp_all add: hex4_def)

lemma scanstring_short_escape:
  assumes "c = 34 \<or> c = 92 \<or> c = 10 \<or> c = 13 \<or> c = 9 \<or> c = 8 \<or> c = 12"
  shows "scanstring (escape_char c @ t) = cons_result c (scanstring t)"
  using assms by (auto simp: escape_char_def backslash_def ustr_def)

lemma scanstring_plain:
  assumes "32 \<le> c" "c \<le> 126" "c \<noteq> 34" "c \<noteq> 92"
  shows "scanstring (escape_char c @ t) = cons_result c (scanstring t)"
  using assms by (auto simp: escape_char_def)

lemma scanstring_bmp_escape:
  assumes "c < 65536" "c < 32 \<or> 126 < c" "c \<noteq> 10" "c \<noteq> 13" "c \<noteq> 9" "c \<noteq> 8" "c \<noteq> 12"
    and "is_high_surrogate c \<longrightarrow> no_low_escape t"
  shows "scanstring (escape_char c @ t) = cons_result c (scanstring t)"
proof -
  have e: "escape_char c @ t = 92 # 117 # hex4 c @ t"
    using assms(1-7) by (auto simp: escape_char_def ustr_def)
  have d: "decode_uXXXX (hex4 c @ t) = Some c"
    by (rule decode_hex4 [OF assms(1)])
  show ?thesis
  proof (cases "is_high_surrogate c \<and> take 2 t = [92, 117]")
    case True
    with assms(8) obtain u where "decode_uXXXX (drop 2 t) = Some u" "\<not> is_low_surrogate u"
      by (auto simp: no_low_escape_def)
    with True show ?thesis
      unfolding e by (simp add: d)
  next
    case False
    then show ?thesis
      unfolding e by (auto simp: d)
  qed
qed

lemma surrogate_split:
  fixes c :: nat
  assumes "65536 \<le> c"
  shows "(c - 65536) div 1024 mod 1024 * 1024 + (c - 65536) mod 1024 + 65536 = c \<or> 1114112 \<le> c"
proof (cases "c < 1114112")
  case True
  then have "(c - 65536) div 1024 < 1024" by simp
  then have "(c - 65536) div 1024 mod 1024 = (c - 65536) div 1024" by simp
  with assms show ?thesis by simp
next
  case False
  then show ?thesis by simp
qed

lemma scanstring_astral_escape:
  assumes "65536 \<le> c" "c < 1114112"
  shows "scanstring (escape_char c @ t) = cons_result c (scanstring t)"
proof -
  let ?hi = "55296 + (c - 65536) div 1024 mod 1024"
  let ?lo = "56320 + (c - 65536) mod 1024"
  have e: "escape_char c @ t = 92 # 117 # hex4 ?hi @ 92 # 117 # hex4 ?lo @ t"
    using assms by (auto simp: escape_char_def ustr_def)
  have hi: "?hi < 65536" "is_high_surrogate ?hi"
    using assms by (simp_all add: is_high_surrogate_def)
  have lo: "?lo < 65536" "is_low_surrogate ?lo"
    using assms by (simp_all add: is_low_surrogate_def)
  have j: "join_surrogates ?hi ?lo = c"
    using surrogate_split [OF assms(1)] assms(2) by (simp add: join_surrogates_def)
  show ?thesis
    unfolding e using hi lo j
    by (simp add: decode_hex4)
qed

lemma scanstring_escape_char:
  assumes "c < 1114112" "is_high_surrogate c \<longrightarrow> no_low_escape t"
  shows "scanstring (escape_char c @ t) = cons_result c (scanstring t)"
proof -
  consider "c = 34 \<or> c = 92 \<or> c = 10 \<or> c = 13 \<or> c = 9 \<or> c = 8 \<or> c = 12"
    | "32 \<le> c" "c \<le> 126" "c \<noteq> 34" "c \<noteq> 92"
    | "c < 65536" "c < 32 \<or> 126 < c" "c \<noteq> 10" "c \<noteq> 13" "c \<noteq> 9" "c \<noteq> 8" "c \<noteq> 12"
    | "65536 \<le> c"
    by linarith
  then show ?thesis
  proof cases
    case 1 then show ?thesis by (rule scanstring_short_escape)
  next
    case 2 then show ?thesis by (rule scanstring_plain)
  next
    case 3 with assms(2) show ?thesis by (intro scanstring_bmp_escape) auto
  next
    case 4 with assms(1) show ?thesis by (intro scanstring_astral_escape) auto
  qed
qed

lemma no_low_escape_quote: "no_low_escape (34 # rest)"
  by (simp add: no_low_escape_def)

lemma no_low_escape_escape_char:
  assumes "d < 1114112" "\<not> is_low_surrogate d"
  shows "no_low_escape (escape_char d @ t)"
proof (cases "d < 65536")
  case True
  show ?thesis
    using assms True unfolding no_low_escape_def
    by (auto simp: escape_char_def ustr_def decode_hex4 split: if_splits)
next
  case False
  let ?hi = "55296 + (d - 65536) div 1024 mod 1024"
  have "?hi < 65536" "\<not> is_low_surrogate ?hi"
    by (simp_all add: is_low_surrogate_def)
  with False show ?thesis
    unfolding no_low_escape_def
    by (auto simp: escape_char_def ustr_def decode_hex4)
qed

lemma scanstring_concat_escape:
  "wf_str s \<Longrightarrow> scanstring (concat (map escape_char s) @ 34 # rest) = Some (s, rest)"
proof (induction s rule: wf_str.induct)
  case 1
  show ?case by simp
next
  case (2 c)
  then have "scanstring (escape_char c @ 34 # rest) = cons_result c (scanstring (34 # rest))"
    by (intro scanstring_escape_char) (auto simp: no_low_escape_quote)
  then show ?case by (simp add: cons_result_def)
next
  case (3 c d s)
  let ?t = "concat (map escape_char (d # s)) @ 34 # rest"
  from 3 have wf: "wf_str (d # s)" and c: "c < 1114112" by simp_all
  from wf have d: "d < 1114112" by (cases s) simp_all
  have "is_high_surrogate c \<longrightarrow> no_low_escape ?t"
    using 3(2) d no_low_escape_escape_char [of d "concat (map escape_char s) @ 34 # rest"]
    by auto
  with c have "scanstring (escape_char c @ ?t) = cons_result c (scanstring ?t)"
    by (rule scanstring_escape_char)
  with 3(1) [OF wf] show ?case
    by (simp add: cons_result_def)
qed

lemma scanstring_encode:
  "wf_str s \<Longrightarrow> scanstring (tl (encode_basestring_ascii s) @ rest) = Some (s, rest)"
  by (simp add: encode_basestring_ascii_def scanstring_concat_escape)


lemma skip_ws_newline_indent [simp]: "skip_ws (newline_indent k @ s) = skip_ws s"
  by (simp add: skip_ws_def newline_indent_def is_whitespace_def dropWhile_append)

lemma skip_ws_Cons: "\<not> is_whitespace c \<Longrightarrow> skip_ws (c # s) = c # s"
  by (simp add: skip_ws_def)

lemma follow_ok_simps [simp]:
  "follow_ok []" "follow_ok (44 # s)" "follow_ok (newline_indent k @ s)"
  by (simp_all add: follow_ok_def newline_indent_def)

lemma str_int_hd:
  "\<exists>c t. str_int i = c # t \<and> (is_digit c \<or> c = 45 \<and> t \<noteq> [] \<and> is_digit (hd t))"
proof (cases "i < 0")
  case True
  obtain a l where "str_nat (nat (- i)) = a # l"
    using str_nat_not_Nil [of "nat (- i)"] by (cases "str_nat (nat (- i))") auto
  moreover from this have "is_digit a" using str_nat_digits [of a "nat (- i)"] by simp
  ultimately show ?thesis using True by (simp add: str_int_def)
next
  case False
  obtain a l where "str_nat (nat i) = a # l"
    using str_nat_not_Nil [of "nat i"] by (cases "str_nat (nat i)") auto
  moreover from this have "is_digit a" using str_nat_digits [of a "nat i"] by simp
  ultimately show ?thesis using False by (simp add: str_int_def)
qed

lemma scan_once_int:
  assumes "follow_ok rest"
  shows "scan_once (Suc n) (str_int i @ rest) = Some (JInt i, rest)"
proof -
  obtain c t where s: "str_int i = c # t"
    and c: "is_digit c \<or> c = 45 \<and> t \<noteq> [] \<and> is_digit (hd t)"
    using str_int_hd [of i] by blast
  have lit: "\<not> (c = 45 \<and> match_literal (ustr ''-Infinity'') (c # t @ rest))"
    using c by (cases t) (auto simp: match_literal_def ustr_def is_digit_def)
  have m: "match_number (c # t @ rest) = Some (JInt i, rest)"
    using match_number_str_int [OF assms, of i] s by simp
  have "c \<noteq> 34" "c \<noteq> 123" "c \<noteq> 91" "c \<noteq> 110" "c \<noteq> 116" "c \<noteq> 102" "c \<noteq> 78" "c \<noteq> 73"
    using c by (auto simp: is_digit_def)
  with lit m show ?thesis
    by (simp add: s)
qed

lemma scan_once_string:
  assumes "wf_str s"
  shows "scan_once (Suc n) (encode_basestring_ascii s @ rest) = Some (JString s, rest)"
  using scanstring_concat_escape [OF assms, of rest]
  by (simp add: encode_basestring_ascii_def)

lemma scan_once_consts:
  "scan_once (Suc n) (ustr ''null'' @ rest) = Some (JNull, rest)"
  "scan_once (Suc n) (ustr ''true'' @ rest) = Some (JBool True, rest)"
  "scan_once (Suc n) (ustr ''false'' @ rest) = Some (JBool False, rest)"
  by (simp_all add: ustr_def match_literal_def)

lemma iterencode_hd:
  "wf_json v \<Longrightarrow>
     \<exists>c t. iterencode fr lvl v = c # t \<and> \<not> is_whitespace c \<and> c \<noteq> 93 \<and> c \<noteq> 125"
proof (cases v)
  case (JInt i)
  obtain c t where "str_int i = c # t" "is_digit c \<or> c = 45 \<and> t \<noteq> [] \<and> is_digit (hd t)"
    using str_int_hd [of i] by blast
  with JInt show ?thesis by (auto simp: is_digit_def is_whitespace_def)
qed (auto simp: ustr_def is_whitespace_def encode_basestring_ascii_def)

lemma iterencode_list_hd:
  "wf_list xs \<Longrightarrow> xs \<noteq> [] \<Longrightarrow>
     \<exists>c t. iterencode_list fr lvl xs = c # t \<and> \<not> is_whitespace c \<and> c \<noteq> 93"
proof (cases xs)
  case (Cons x xs')
  assume "wf_list xs"
  with Cons have "wf_json x" by simp
  from iterencode_hd [OF this, of fr lvl] Cons show ?thesis by auto
qed simp

lemma iterencode_dict_hd:
  "kvs \<noteq> [] \<Longrightarrow> \<exists>t. iterencode_dict fr lvl kvs = 34 # t"
  by (cases kvs) (auto simp: encode_basestring_ascii_def)

lemma dict_set_fresh: "k \<notin> fst ` set acc \<Longrightarrow> dict_set acc k v = acc @ [(k, v)]"
  by (induction acc) auto

lemma skip_ws_space: "skip_ws (32 # s) = skip_ws s"
  by (simp add: skip_ws_def is_whitespace_def)

lemma scan_once_array:
  assumes ih: "\<And>n lvl acc k rest. wf_list xs \<Longrightarrow> xs \<noteq> [] \<Longrightarrow>
                 length (iterencode_list fr lvl xs) < n \<Longrightarrow>
                 parse_array n acc (iterencode_list fr lvl xs @ newline_indent k @ 93 # rest)
                   = Some (acc @ xs, rest)"
    and wf: "wf_list xs"
    and len: "length (iterencode fr lvl (JArray xs)) \<le> n"
  shows "scan_once n (iterencode fr lvl (JArray xs) @ rest) = Some (JArray xs, rest)"
proof (cases "xs = []")
  case True
  with len obtain m where "n = Suc m" by (cases n) (auto simp: ustr_def)
  with True show ?thesis
    by (simp add: ustr_def skip_ws_Cons is_whitespace_def)
next
  case False
  from len False obtain m where n: "n = Suc m" and m: "length (iterencode_list fr (Suc lvl) xs) < m"
    by (cases n) (auto simp: ustr_def newline_indent_def)
  obtain c t where h: "iterencode_list fr (Suc lvl) xs = c # t" "\<not> is_whitespace c" "c \<noteq> 93"
    using iterencode_list_hd [OF wf False] by blast
  have "parse_array m [] (iterencode_list fr (Suc lvl) xs @ newline_indent lvl @ 93 # rest)
          = Some ([] @ xs, rest)"
    by (rule ih [OF wf False m])
  with h have p: "parse_array m [] (c # t @ newline_indent lvl @ 93 # rest) = Some (xs, rest)"
    by simp
  have "skip_ws (newline_indent (Suc lvl) @ (c # t) @ newline_indent lvl @ 93 # rest)
          = c # t @ newline_indent lvl @ 93 # rest"
    using h(2) by (simp add: skip_ws_Cons)
  with False n h p show ?thesis
    by (simp add: ustr_def)
qed

lemma parse_array_step:
  assumes ihx: "\<And>n lvl rest. wf_json x \<Longrightarrow> follow_ok rest \<Longrightarrow>
                  length (iterencode fr lvl x) \<le> n \<Longrightarrow>
                  scan_once n (iterencode fr lvl x @ rest) = Some (x, rest)"
    and ih: "\<And>n lvl acc k rest. wf_list xs \<Longrightarrow> xs \<noteq> [] \<Longrightarrow>
                 length (iterencode_list fr lvl xs) < n \<Longrightarrow>
                 parse_array n acc (iterencode_list fr lvl xs @ newline_indent k @ 93 # rest)
                   = Some (acc @ xs, rest)"
    and wf: "wf_list (x # xs)"
    and len: "length (iterencode_list fr lvl (x # xs)) < n"
  shows "parse_array n acc (iterencode_list fr lvl (x # xs) @ newline_indent k @ 93 # rest)
           = Some (acc @ x # xs, rest)"
proof -
  from wf have wx: "wf_json x" and wxs: "wf_list xs" by simp_all
  from len obtain m where n: "n = Suc m" and m: "length (iterencode fr lvl x) \<le> m"
    by (cases n) auto
  show ?thesis
  proof (cases "xs = []")
    case True
    have "scan_once m (iterencode fr lvl x @ newline_indent k @ 93 # rest)
            = Some (x, newline_indent k @ 93 # rest)"
      by (rule ihx [OF wx _ m]) simp
    with True n show ?thesis
      by (simp add: skip_ws_Cons is_whitespace_def)
  next
    case False
    let ?tail = "iterencode_list fr lvl xs @ newline_indent k @ 93 # rest"
    have s: "scan_once m (iterencode fr lvl x @ 44 # newline_indent lvl @ ?tail)
               = Some (x, 44 # newline_indent lvl @ ?tail)"
      by (rule ihx [OF wx _ m]) simp
    obtain c t where h: "iterencode_list fr lvl xs = c # t" "\<not> is_whitespace c"
      using iterencode_list_hd [OF wxs False] by blast
    have sk: "skip_ws (newline_indent lvl @ ?tail) = ?tail"
      using h by (simp add: skip_ws_Cons)
    from len False n have "length (iterencode_list fr lvl xs) < m"
      by (simp add: ustr_def)
    then have "parse_array m (acc @ [x]) ?tail = Some ((acc @ [x]) @ xs, rest)"
      by (rule ih [OF wxs False])
    with False n s sk show ?thesis
      by (simp add: ustr_def skip_ws_Cons is_whitespace_def)
  qed
qed

lemma scan_once_object:
  assumes ih: "\<And>n lvl acc k rest. wf_dict kvs \<Longrightarrow> kvs \<noteq> [] \<Longrightarrow> distinct (map fst (acc @ kvs)) \<Longrightarrow>
                 length (iterencode_dict fr lvl kvs) < n \<Longrightarrow>
                 parse_object n acc (iterencode_dict fr lvl kvs @ newline_indent k @ 125 # rest)
                   = Some (acc @ kvs, rest)"
    and wf: "wf_dict kvs" "distinct (map fst kvs)"
    and len: "length (iterencode fr lvl (JObject kvs)) \<le> n"
  shows "scan_once n (iterencode fr lvl (JObject kvs) @ rest) = Some (JObject kvs, rest)"
proof (cases "kvs = []")
  case True
  with len obtain m where "n = Suc m" by (cases n) (auto simp: ustr_def)
  with True show ?thesis
    by (simp add: ustr_def skip_ws_Cons is_whitespace_def)
next
  case False
  from len False obtain m where n: "n = Suc m" and m: "length (iterencode_dict fr (Suc lvl) kvs) < m"
    by (cases n) (auto simp: ustr_def newline_indent_def)
  obtain t where h: "iterencode_dict fr (Suc lvl) kvs = 34 # t"
    using iterencode_dict_hd [OF False] by blast
  have "parse_object m [] (iterencode_dict fr (Suc lvl) kvs @ newline_indent lvl @ 125 # rest)
          = Some ([] @ kvs, rest)"
    by (rule ih [OF wf(1) False _ m]) (simp add: wf(2))
  with h have p: "parse_object m [] (34 # t @ newline_indent lvl @ 125 # rest) = Some (kvs, rest)"
    by simp
  have "skip_ws (newline_indent (Suc lvl) @ (34 # t) @ newline_indent lvl @ 125 # rest)
          = 34 # t @ newline_indent lvl @ 125 # rest"
    by (simp add: skip_ws_Cons is_whitespace_def)
  with False n h p show ?thesis
    by (simp add: ustr_def)
qed

lemma parse_object_step:
  assumes ihv: "\<And>n lvl rest. wf_json (snd kv) \<Longrightarrow> follow_ok rest \<Longrightarrow>
                  length (iterencode fr lvl (snd kv)) \<le> n \<Longrightarrow>
                  scan_once n (iterencode fr lvl (snd kv) @ rest) = Some (snd kv, rest)"
    and ih: "\<And>n lvl acc k rest. wf_dict kvs \<Longrightarrow> kvs \<noteq> [] \<Longrightarrow> distinct (map fst (acc @ kvs)) \<Longrightarrow>
                 length (iterencode_dict fr lvl kvs) < n \<Longrightarrow>
                 parse_object n acc (iterencode_dict fr lvl kvs @ newline_indent k @ 125 # rest)
                   = Some (acc @ kvs, rest)"
    and wf: "wf_dict (kv # kvs)"
    and dist: "distinct (map fst (acc @ kv # kvs))"
    and len: "length (iterencode_dict fr lvl (kv # kvs)) < n"
  shows "parse_object n acc (iterencode_dict fr lvl (kv # kvs) @ newline_indent k @ 125 # rest)
           = Some (acc @ kv # kvs, rest)"
proof -
  obtain key v where kv: "kv = (key, v)" by (cases kv)
  from wf kv have wk: "wf_str key" and wv: "wf_json (snd kv)" and wkvs: "wf_dict kvs" by simp_all
  from len obtain m where n: "n = Suc m" and m: "length (iterencode fr lvl v) \<le> m"
    using kv by (cases n) auto
  from dist kv have fresh: "key \<notin> fst ` set acc" by auto
  have ds: "dict_set acc key v = acc @ [kv]"
    using dict_set_fresh [OF fresh] kv by simp
  obtain c t where hv: "iterencode fr lvl v = c # t" "\<not> is_whitespace c"
    using iterencode_hd [OF wv, of fr lvl] kv by auto
  show ?thesis
  proof (cases "kvs = []")
    case True
    let ?r = "newline_indent k @ 125 # rest"
    have key: "scanstring (concat (map escape_char key) @ 34 # 58 # 32 # iterencode fr lvl v @ ?r)
                 = Some (key, 58 # 32 # iterencode fr lvl v @ ?r)"
      by (rule scanstring_concat_escape [OF wk])
    have val: "scan_once m (iterencode fr lvl v @ ?r) = Some (v, ?r)"
      using ihv [where n = m and lvl = lvl and rest = ?r] wv m kv by simp
    have sk: "skip_ws (32 # iterencode fr lvl v @ ?r) = iterencode fr lvl v @ ?r"
      using hv by (simp add: skip_ws_space skip_ws_Cons)
    from True n kv key val sk ds show ?thesis
      by (simp add: encode_basestring_ascii_def ustr_def skip_ws_Cons is_whitespace_def)
  next
    case False
    let ?tail = "iterencode_dict fr lvl kvs @ newline_indent k @ 125 # rest"
    let ?r = "44 # newline_indent lvl @ ?tail"
    have key: "scanstring (concat (map escape_char key) @ 34 # 58 # 32 # iterencode fr lvl v @ ?r)
                 = Some (key, 58 # 32 # iterencode fr lvl v @ ?r)"
      by (rule scanstring_concat_escape [OF wk])
    have val: "scan_once m (iterencode fr lvl v @ ?r) = Some (v, ?r)"
      using ihv [where n = m and lvl = lvl and rest = ?r] wv m kv by simp
    have sk: "skip_ws (32 # iterencode fr lvl v @ ?r) = iterencode fr lvl v @ ?r"
      using hv by (simp add: skip_ws_space skip_ws_Cons)
    obtain t' where h: "iterencode_dict fr lvl kvs = 34 # t'"
      using iterencode_dict_hd [OF False] by blast
    have sk2: "skip_ws (newline_indent lvl @ ?tail) = ?tail"
      using h by (simp add: skip_ws_Cons is_whitespace_def)
    from len False n kv have "length (iterencode_dict fr lvl kvs) < m"
      by (simp add: ustr_def)
    moreover from dist have "distinct (map fst ((acc @ [kv]) @ kvs))" by simp
    ultimately have "parse_object m (acc @ [kv]) ?tail = Some ((acc @ [kv]) @ kvs, rest)"
      by (intro ih [OF wkvs False])
    with False n kv key val sk sk2 ds show ?thesis
      by (simp add: encode_basestring_ascii_def ustr_def skip_ws_Cons is_whitespace_def)
  qed
qed

lemma length_pos_Suc: "xs \<noteq> [] \<Longrightarrow> length xs \<le> n \<Longrightarrow> \<exists>m. n = Suc m"
  by (cases n) auto

lemma scan_once_iterencode:
  "wf_json v \<Longrightarrow> follow_ok rest \<Longrightarrow> length (iterencode fr lvl v) \<le> n \<Longrightarrow>
     scan_once n (iterencode fr lvl v @ rest) = Some (v, rest)"
  and "wf_list xs \<Longrightarrow> xs \<noteq> [] \<Longrightarrow> length (iterencode_list fr lvl xs) < n \<Longrightarrow>
     parse_array n acc (iterencode_list fr lvl xs @ newline_indent k @ 93 # rest) = Some (acc @ xs, rest)"
  and "wf_dict kvs \<Longrightarrow> kvs \<noteq> [] \<Longrightarrow> distinct (map fst (acc' @ kvs)) \<Longrightarrow>
     length (iterencode_dict fr lvl kvs) < n \<Longrightarrow>
     parse_object n acc' (iterencode_dict fr lvl kvs @ newline_indent k @ 125 # rest)
       = Some (acc' @ kvs, rest)"
proof (induction v and xs and kvs arbitrary: n lvl rest and n lvl acc k rest and n lvl acc' k rest
       rule: wf_json_wf_list_wf_dict.induct)
  case 1
  then obtain m where "n = Suc m" by (cases n) (auto simp: ustr_def)
  then show ?case by (simp add: scan_once_consts del: scan_once.simps)
next
  case (2 b)
  then obtain m where "n = Suc m" by (cases n; cases b) (auto simp: ustr_def)
  then show ?case by (cases b) (simp_all add: scan_once_consts del: scan_once.simps)
next
  case (3 i)
  have "str_int i \<noteq> []" using str_int_hd [of i] by auto
  with 3 obtain m where "n = Suc m" by (cases n) auto
  with 3 show ?case by (simp add: scan_once_int del: scan_once.simps)
next
  case (4 x)
  then show ?case by simp
next
  case (5 s)
  then obtain m where "n = Suc m" by (cases n) (auto simp: encode_basestring_ascii_def)
  with 5 show ?case by (simp add: scan_once_string del: scan_once.simps)
next
  case (6 xs)
  show ?case
    by (rule scan_once_array [OF 6(1)]) (use 6 in simp_all)
next
  case (7 kvs)
  show ?case
    by (rule scan_once_object [OF 7(1)]) (use 7 in simp_all)
next
  case 8
  then show ?case by simp
next
  case (9 x xs)
  show ?case
    by (rule parse_array_step [OF 9(1) 9(2)]) (use 9 in simp_all)
next
  case 10
  then show ?case by simp
next
  case (11 kv kvs)
  show ?case
    by (rule parse_object_step [OF 11(1) 11(2)]) (use 11 in simp_all)
qed

lemma ascii_simps [simp]:
  "ascii []" "ascii (c # s) \<longleftrightarrow> c < 128 \<and> ascii s" "ascii (s @ t) \<longleftrightarrow> ascii s \<and> ascii t"
  by (auto simp: ascii_def)

lemma hexdigit_ascii: "d < 16 \<Longrightarrow> hexdigit d < 128"
  by (simp add: hexdigit_def)

lemma ascii_hex4: "ascii (hex4 n)"
  by (simp add: hex4_def hexdigit_ascii)

lemma ascii_escape_char: "ascii (escape_char c)"
  by (simp add: escape_char_def ustr_def ascii_hex4)

lemma ascii_encode_basestring: "ascii (encode_basestring_ascii s)"
  by (induction s) (simp_all add: encode_basestring_ascii_def ascii_escape_char)

lemma ascii_str_nat: "ascii (str_nat n)"
  unfolding ascii_def
proof
  fix c assume "c \<in> set (str_nat n)"
  then have "is_digit c" by (rule str_nat_digits)
  then show "c < 128" by (simp add: is_digit_def)
qed

lemma ascii_str_int: "ascii (str_int i)"
  by (simp add: str_int_def ascii_str_nat)

lemma ascii_newline_indent: "ascii (newline_indent k)"
  by (simp add: newline_indent_def ascii_def)

lemma ascii_iterencode:
  "wf_json v \<Longrightarrow> ascii (iterencode fr lvl v)"
  and "wf_list xs \<Longrightarrow> ascii (iterencode_list fr lvl xs)"
  and "wf_dict kvs \<Longrightarrow> ascii (iterencode_dict fr lvl kvs)"
proof (induction v and xs and kvs arbitrary: lvl and lvl and lvl
       rule: wf_json_wf_list_wf_dict.induct)
  case (2 b)
  then show ?case by (cases b) (simp_all add: ustr_def)
qed (simp_all add: ustr_def ascii_str_int ascii_encode_basestring ascii_newline_indent)

lemma json_loads_dumps:
  assumes "wf_json v"
  shows "json_loads (json_dumps fr v) = Some v"
proof -
  obtain c t where h: "iterencode fr 0 v = c # t" "\<not> is_whitespace c"
    using iterencode_hd [OF assms, of fr 0] by blast
  have "ascii (iterencode fr 0 v)"
    by (rule ascii_iterencode(1) [OF assms])
  with h have c: "c < 128" by simp
  have "scan_once (Suc (length (iterencode fr 0 v))) (iterencode fr 0 v @ []) = Some (v, [])"
    by (rule scan_once_iterencode(1) [OF assms]) simp_all
  moreover have "skip_ws (iterencode fr 0 v) = iterencode fr 0 v"
    using h by (simp add: skip_ws_Cons)
  moreover have "take 1 (iterencode fr 0 v) \<noteq> [65279]"
    using h c by auto
  moreover have "skip_ws [] = []"
    by (simp add: skip_ws_def)
  ultimately show ?thesis
    by (simp add: json_loads_def json_dumps_def)
qed

lemma utf8_encode_units_ascii: "ascii s \<Longrightarrow> utf8_encode_units s = Some s"
  by (induction s) (simp_all add: utf8_encode_char_def)

lemma utf8_decode_units_ascii: "ascii s \<Longrightarrow> utf8_decode_units s = Some s"
  by (induction s) simp_all

lemma map_mod_256_ascii: "ascii s \<Longrightarrow> map (\<lambda>c. c mod 256) s = s"
  by (induction s) simp_all

lemma utf8_roundtrip_ascii:
  assumes "ascii s"
  shows "utf8_encode s = Some (map char_of s)" and "utf8_decode (map char_of s) = Some s"
  using assms
  by (simp_all add: utf8_encode_def utf8_decode_def utf8_encode_units_ascii
        utf8_decode_units_ascii map_mod_256_ascii comp_def)

lemma dumps_payload:
  assumes "wf_json v"
  shows "utf8_encode (json_dumps fr v) = Some (map char_of (json_dumps fr v))"
    and "utf8_decode (map char_of (json_dumps fr v)) = Some (json_dumps fr v)"
  using ascii_iterencode(1) [OF assms, of fr 0]
  by (simp_all add: json_dumps_def utf8_roundtrip_ascii)

section \<open>The registry round trip\<close>

lemma wf_user_entry:
  "wf_str token \<Longrightarrow> wf_str display \<Longrightarrow> wf_json (user_entry token display createdAt)"
  by (simp add: user_entry_def ustr_def is_high_surrogate_def)

lemma wf_dict_registry:
  "\<forall>(userId, token, display, createdAt) \<in> set users.
      wf_str userId \<and> wf_str token \<and> wf_str display \<Longrightarrow>
   wf_dict (map (\<lambda>(userId, token, display, createdAt).
                   (userId, user_entry token display createdAt)) users)"
  by (induction users) (auto simp: wf_user_entry)

lemma wf_registry_of:
  assumes "distinct (map fst users)"
    and "\<forall>(userId, token, display, createdAt) \<in> set users.
           wf_str userId \<and> wf_str token \<and> wf_str display"
  shows "wf_json (registry_of users)"
proof -
  have "distinct (map fst (map (\<lambda>(userId, token, display, createdAt).
                                  (userId, user_entry token display createdAt)) users))"
    using assms(1) by (simp add: comp_def case_prod_unfold)
  with wf_dict_registry [OF assms(2)] show ?thesis
    by (simp add: registry_of_def)
qed

lemma save_users_registry_wf:
  assumes "wf_json users"
  shows "save_users_registry lib api cfg users sha w =
           put_repo_file api cfg (USERS_FILE_PATH cfg)
             (map char_of (json_dumps (float_repr lib) users))
             (ustr ''update '' @ USERS_FILE_PATH cfg) sha w"
  by (simp add: save_users_registry_def dumps_payload(1) [OF assms])

lemma load_users_registry_wf:
  assumes "wf_json users"
    and "api (remote w) (GET (contents_url cfg (USERS_FILE_PATH cfg)) (BRANCH cfg))
           = (\<lparr>status_code = 200, r_text = txt,
               json_body = FileObject sha (map char_of (json_dumps fr users))\<rparr>, s')"
  shows "fst (load_users_registry api cfg w) = Inr (Some sha, users)"
  using assms(2)
  by (simp add: load_users_registry_def get_repo_file_def requests_send_def
        dumps_payload(2) [OF assms(1)] json_loads_dumps [OF assms(1)])

text \<open>
  Claim C3, as the code has it.  Take a registry of N users with distinct userIds whose
  userIds, tokens and display names are well-formed strings (no high surrogate directly
  followed by a low surrogate).  \<open>save_users_registry\<close> puts a payload into the
  registry file such that, whenever the backing store serves that payload for the
  registry file, \<open>load_users_registry\<close> returns exactly this registry: the same N records
  in the same order, each with its token, display name and creation time.
\<close>

theorem registry_roundtrip:
  assumes "distinct (map fst users)"
    and "\<forall>(userId, token, display, createdAt) \<in> set users.
           wf_str userId \<and> wf_str token \<and> wf_str display"
  shows "\<exists>payload.
           save_users_registry lib api cfg (registry_of users) sha w =
             put_repo_file api cfg (USERS_FILE_PATH cfg) payload
               (ustr ''update '' @ USERS_FILE_PATH cfg) sha w \<and>
           (\<forall>api' w' sha' txt s'.
              api' (remote w') (GET (contents_url cfg (USERS_FILE_PATH cfg)) (BRANCH cfg))
                = (\<lparr>status_code = 200, r_text = txt, json_body = FileObject sha' payload\<rparr>, s')
              \<longrightarrow> fst (load_users_registry api' cfg w') = Inr (Some sha', registry_of users))"
proof -
  have wf: "wf_json (registry_of users)"
    by (rule wf_registry_of [OF assms])
  show ?thesis
    apply (intro exI [where x = "map char_of (json_dumps (float_repr lib) (registry_of users))"]
             conjI allI impI)
     apply (rule save_users_registry_wf [OF wf])
    apply (erule load_users_registry_wf [OF wf])
    done
qed

theorem registry_roundtrip_witness:
  "\<exists>sha. fst (load_users_registry fake_github default_config
            (snd (save_users_registry ascii_lib fake_github default_config
                    (registry_of [(ustr ''alice'', ustr ''0f'', ustr ''Alice A.'', 1700000000000),
                                  (ustr ''bob'', ustr ''1e'', [], 1700000000001)])
                    None (new_world []))))
     = Inr (Some sha, registry_of [(ustr ''alice'', ustr ''0f'', ustr ''Alice A.'', 1700000000000),
                                   (ustr ''bob'', ustr ''1e'', [], 1700000000001)])"
proof -
  let ?users = "[(ustr ''alice'', ustr ''0f'', ustr ''Alice A.'', 1700000000000 :: int),
                 (ustr ''bob'', ustr ''1e'', [], 1700000000001)]"
  let ?url = "contents_url default_config (USERS_FILE_PATH default_config)"
  let ?msg = "ustr ''update '' @ USERS_FILE_PATH default_config"
  have d: "distinct (map fst ?users)"
    by (simp add: ustr_def)
  have s: "\<forall>(userId, token, display, createdAt) \<in> set ?users.
             wf_str userId \<and> wf_str token \<and> wf_str display"
    by (simp add: ustr_def is_high_surrogate_def)
  from registry_roundtrip [OF d s, of ascii_lib fake_github default_config None "new_world []"]
  obtain payload where
    sv: "save_users_registry ascii_lib fake_github default_config (registry_of ?users) None (new_world [])
           = put_repo_file fake_github default_config (USERS_FILE_PATH default_config) payload ?msg
               None (new_world [])"
    and ld: "\<forall>(api' :: repo github) w' sha' txt s'.
               api' (remote w') (GET ?url (BRANCH default_config))
                 = (\<lparr>status_code = 200, r_text = txt, json_body = FileObject sha' payload\<rparr>, s')
               \<longrightarrow> fst (load_users_registry api' default_config w') = Inr (Some sha', registry_of ?users)"
    by (elim exE conjE) (rule that; assumption)
  let ?w = "snd (put_repo_file fake_github default_config (USERS_FILE_PATH default_config)
                   payload ?msg None (new_world []))"
  have g: "fake_github (remote ?w) (GET ?url (BRANCH default_config))
           = (\<lparr>status_code = 200, r_text = [], json_body = FileObject (blob_id payload) payload\<rparr>,
              [(?url, blob_id payload, payload)])"
    by (simp add: put_repo_file_def requests_send_def new_world_def reply_def)
  from ld have "fake_github (remote ?w) (GET ?url (BRANCH default_config))
                  = (\<lparr>status_code = 200, r_text = [], json_body = FileObject (blob_id payload) payload\<rparr>,
                     [(?url, blob_id payload, payload)])
                \<longrightarrow> fst (load_users_registry fake_github default_config ?w)
                      = Inr (Some (blob_id payload), registry_of ?users)"
    by (elim allE)
  with g have final: "fst (load_users_registry fake_github default_config ?w)
                 = Inr (Some (blob_id payload), registry_of ?users)"
    by (rule rev_mp)
  show ?thesis
    unfolding sv by (rule exI [where x = "blob_id payload"]) (rule final)
qed

theorem registry_roundtrip_surrogate_counterexample:
  "fst (load_users_registry fake_github default_config
          (snd (save_users_registry ascii_lib fake_github default_config
                  (registry_of [([55357, 56832], ustr ''0f'', [], 5)]) None (new_world []))))
     = Inr (Some (ustr ''blob84''), registry_of [([128512], ustr ''0f'', [], 5)]) \<and>
   registry_of [([128512], ustr ''0f'', [], 5)] \<noteq> registry_of [([55357, 56832], ustr ''0f'', [], 5)]"
  by (simp add: eval_defs registry_of_def str_nat.simps)

section \<open>Registering, then checking\<close>











end
